theory Spec2Isabelle
  imports Complex_Main "HOL-Library.Word" "HOL-Library.Sublist"
begin

section \<open>Numbers, blobs and images\<close>

text \<open>
  The finite JavaScript numbers are rationals. In \<^verbatim>\<open>compressImageToTarget\<close> the
  arithmetic is exact: the results about it are about the search of
  \<^verbatim>\<open>src/utils/imageProcessor.ts\<close> under exact arithmetic. In \<^verbatim>\<open>getCroppedImg\<close> a
  quotient and a product are cut down to an integer, which shows their rounding, so there
  every division and multiplication rounds to a double (\<open>fdiv\<close>, \<open>fmul\<close> below).
  The DOM attributes of type \<^verbatim>\<open>unsigned long\<close> (\<^verbatim>\<open>image.width\<close>,
  \<^verbatim>\<open>image.naturalWidth\<close>, \<^verbatim>\<open>canvas.width\<close>, ...) are 32-bit words.
\<close>

type_synonym number = rat

text \<open>A \<^verbatim>\<open>Blob\<close> is its bytes; \<^verbatim>\<open>blob.size\<close> is their number.\<close>

type_synonym Blob = "8 word list"

definition size_of :: "Blob \<Rightarrow> nat" where
  "size_of b = length b"

text \<open>
  Reading an \<^verbatim>\<open>unsigned long\<close> attribute gives a number; assigning a number to one
  converts it as Web IDL does: the fraction is dropped (towards zero) and the integer
  is taken modulo \<open>2^32\<close>.
\<close>

definition fromUnsignedLong :: "32 word \<Rightarrow> number" where
  "fromUnsignedLong w = of_int (uint w)"

definition toUnsignedLong :: "number \<Rightarrow> 32 word" where
  "toUnsignedLong v = word_of_int (if 0 \<le> v then \<lfloor>v\<rfloor> else \<lceil>v\<rceil>)"

text \<open>
  Rounding to a double, for the \<^verbatim>\<open>/\<close> and \<^verbatim>\<open>*\<close> of \<^verbatim>\<open>getCroppedImg\<close>: to the nearest
  number with a significand of 53 bits, ties to the even one, with the fixed spacing
  \<open>2^-1074\<close> below \<open>2^-1022\<close>. \<open>bitlen n\<close> is the number of binary digits of \<open>n\<close>,
  and \<open>exponent a\<close>, for a positive \<open>a\<close>, the \<open>e\<close> with \<open>2^e \<le> a < 2^(e+1)\<close>.
  A result of \<open>2^1024\<close> or more is \<^verbatim>\<open>Infinity\<close> in JavaScript and stays finite here, and
  a division by zero gives \<^verbatim>\<open>Infinity\<close> or \<^verbatim>\<open>NaN\<close> there and 0 here.
\<close>

fun bitlen :: "nat \<Rightarrow> nat" where
  "bitlen n = (if n = 0 then 0 else Suc (bitlen (n div 2)))"

definition pow2 :: "int \<Rightarrow> number" where
  "pow2 k = (if 0 \<le> k then 2 ^ nat k else 1 / 2 ^ nat (- k))"

definition exponent :: "number \<Rightarrow> int" where
  "exponent a =
     (if 1 \<le> a then int (bitlen (nat \<lfloor>a\<rfloor>)) - 1
      else let b = int (bitlen (nat \<lfloor>1 / a\<rfloor>)) - 1
           in if a * pow2 b = 1 then - b else - b - 1)"

definition roundTiesToEven :: "number \<Rightarrow> int" where
  "roundTiesToEven m =
     (let f = \<lfloor>m\<rfloor>; r = m - of_int f
      in if r < 1 / 2 then f else if 1 / 2 < r then f + 1 else if even f then f else f + 1)"

definition toDouble :: "number \<Rightarrow> number" where
  "toDouble x =
     (if x = 0 then 0
      else let q = max (exponent \<bar>x\<bar> - 52) (- 1074)
           in sgn x * of_int (roundTiesToEven (\<bar>x\<bar> / pow2 q)) * pow2 q)"

definition fdiv :: "number \<Rightarrow> number \<Rightarrow> number" where
  "fdiv a b = toDouble (a / b)"

definition fmul :: "number \<Rightarrow> number \<Rightarrow> number" where
  "fmul a b = toDouble (a * b)"

text \<open>\<^verbatim>\<open>HTMLImageElement\<close>: \<open>img_width\<close>, \<open>img_height\<close> are \<^verbatim>\<open>image.width\<close>, \<^verbatim>\<open>image.height\<close>.\<close>

record HTMLImageElement =
  naturalWidth :: "32 word"
  naturalHeight :: "32 word"
  img_width :: "32 word"
  img_height :: "32 word"

text \<open>\<^verbatim>\<open>interface PixelCrop\<close>; the \<^verbatim>\<open>unit\<close> field has the single value \<^verbatim>\<open>'px'\<close>.\<close>

record PixelCrop =
  crop_x :: number
  crop_y :: number
  crop_width :: number
  crop_height :: number

section \<open>The canvas and the platform\<close>

text \<open>
  A canvas is its two dimensions and the painting calls made on it since its bitmap was
  last reset. Assigning \<^verbatim>\<open>canvas.width\<close> or \<^verbatim>\<open>canvas.height\<close> resets the bitmap. The
  two attributes reflect content attributes: a converted value above 2147483647 (so also
  every negative number) is not kept, the dimension falls back to its default, 300 for
  the width and 150 for the height.
  \<open>DrawImage img sx sy sw sh dx dy dw dh\<close> is the nine-argument \<^verbatim>\<open>ctx.drawImage\<close>,
  \<open>DrawImageAt img dx dy dw dh\<close> the five-argument one. Painting is recorded and never
  throws. A new canvas is 300 by 150.
\<close>

datatype paint =
    DrawImage HTMLImageElement number number number number number number number number
  | DrawImageAt HTMLImageElement number number number number
  | ClearRect number number number number

record canvas =
  cv_width :: "32 word"
  cv_height :: "32 word"
  cv_ops :: "paint list"

definition createElement_canvas :: canvas where
  "createElement_canvas = \<lparr>cv_width = 300, cv_height = 150, cv_ops = []\<rparr>"

definition reflected :: "32 word \<Rightarrow> number \<Rightarrow> 32 word" where
  "reflected dflt v =
     (if uint (toUnsignedLong v) \<le> 2147483647 then toUnsignedLong v else dflt)"

definition set_width :: "number \<Rightarrow> canvas \<Rightarrow> canvas" where
  "set_width v c = c\<lparr>cv_width := reflected 300 v, cv_ops := []\<rparr>"

definition set_height :: "number \<Rightarrow> canvas \<Rightarrow> canvas" where
  "set_height v c = c\<lparr>cv_height := reflected 150 v, cv_ops := []\<rparr>"

definition painted :: "paint \<Rightarrow> canvas \<Rightarrow> canvas" where
  "painted p c = c\<lparr>cv_ops := cv_ops c @ [p]\<rparr>"

text \<open>
  What the browser decides: whether an image loads (\<^verbatim>\<open>onload\<close> against \<^verbatim>\<open>onerror\<close> in
  \<^verbatim>\<open>fileToImage\<close>), whether \<^verbatim>\<open>getContext('2d')\<close> gives a context, and what
  \<^verbatim>\<open>canvas.toBlob(callback, type, quality)\<close> hands to its callback: a blob or \<^verbatim>\<open>null\<close>.
\<close>

record platform =
  loadImage :: "Blob \<Rightarrow> HTMLImageElement option"
  getContext :: "canvas \<Rightarrow> bool"
  toBlob :: "canvas \<Rightarrow> string \<Rightarrow> number \<Rightarrow> Blob option"

text \<open>Every call of \<^verbatim>\<open>canvas.toBlob\<close> is logged with the canvas, the quality and the outcome.\<close>

record encode_call =
  on_canvas :: canvas
  at_quality :: number
  outcome :: "Blob option"

record world =
  the_canvas :: canvas
  toBlobCalls :: "encode_call list"

text \<open>
  What the two functions can throw or reject with: \<^verbatim>\<open>Error('No 2d context')\<close> and
  \<^verbatim>\<open>Error('Canvas is empty')\<close> in \<^verbatim>\<open>getCroppedImg\<close>,
  \<^verbatim>\<open>Error('Could not get canvas context')\<close> in \<^verbatim>\<open>compressImageToTarget\<close>, the
  rejection of \<^verbatim>\<open>fileToImage\<close> when the image does not load, and the \<^verbatim>\<open>TypeError\<close> of
  reading a property of \<^verbatim>\<open>null\<close>. An \<^verbatim>\<open>async\<close> function that throws rejects its promise:
  both are the \<open>Inl\<close> of the result.
\<close>

datatype error =
    No2dContext
  | CanvasIsEmpty
  | CouldNotGetCanvasContext
  | ImageLoadFailed
  | NullDereference

section \<open>getCroppedImg\<close>

text \<open>
  Lines 22 to 60. The \<open>type\<close> parameter has the default \<^verbatim>\<open>'image/jpeg'\<close>. The function
  returns the blob and, as the world it leaves, the canvas it encoded. The quotients
  and products of lines 28 to 44 are doubles. Where \<^verbatim>\<open>image.width\<close> or
  \<^verbatim>\<open>image.height\<close> is 0 the quotient is \<^verbatim>\<open>Infinity\<close> or \<^verbatim>\<open>NaN\<close> in JavaScript and 0
  here; in both cases the canvas dimension becomes 0, and no statement below depends on
  what is painted in that case.
\<close>

definition getCroppedImg ::
  "platform \<Rightarrow> HTMLImageElement \<Rightarrow> PixelCrop \<Rightarrow> string option \<Rightarrow> (error + Blob) \<times> world" where
  "getCroppedImg env img crop type_arg =
    (let type = (case type_arg of None \<Rightarrow> ''image/jpeg'' | Some t \<Rightarrow> t);
         canvas = createElement_canvas;
         scaleX = fdiv (fromUnsignedLong (naturalWidth img)) (fromUnsignedLong (img_width img));
         scaleY = fdiv (fromUnsignedLong (naturalHeight img)) (fromUnsignedLong (img_height img));
         canvas = set_width (fmul (crop_width crop) scaleX) canvas;
         canvas = set_height (fmul (crop_height crop) scaleY) canvas
     in if \<not> getContext env canvas
        then (Inl No2dContext, \<lparr>the_canvas = canvas, toBlobCalls = []\<rparr>)
        else
          let canvas = painted (DrawImage img
                 (fmul (crop_x crop) scaleX) (fmul (crop_y crop) scaleY)
                 (fmul (crop_width crop) scaleX) (fmul (crop_height crop) scaleY)
                 0 0
                 (fromUnsignedLong (cv_width canvas)) (fromUnsignedLong (cv_height canvas))) canvas;
              r = toBlob env canvas type 1;
              w = \<lparr>the_canvas = canvas,
                   toBlobCalls = [\<lparr>on_canvas = canvas, at_quality = 1, outcome = r\<rparr>]\<rparr>
          in case r of
               None \<Rightarrow> (Inl CanvasIsEmpty, w)
             | Some blob \<Rightarrow> (Inr blob, w))"

section \<open>compressImageToTarget\<close>

record CompressionResult =
  blob :: "Blob option"
  width :: int
  height :: int

text \<open>
  The field \<open>blob\<close> is declared \<^verbatim>\<open>Blob\<close> in the source, but \<^verbatim>\<open>getBlob\<close> resolves with
  \<^verbatim>\<open>blob!\<close>, which checks nothing when the program runs: a \<^verbatim>\<open>null\<close> from the encoder
  travels on as the value, so the model keeps it as \<open>None\<close>.
\<close>

definition fileToImage :: "platform \<Rightarrow> Blob \<Rightarrow> error + HTMLImageElement" where
  "fileToImage env file =
     (case loadImage env file of None \<Rightarrow> Inl ImageLoadFailed | Some img \<Rightarrow> Inr img)"

definition getBlob :: "platform \<Rightarrow> number \<Rightarrow> world \<Rightarrow> Blob option \<times> world" where
  "getBlob env q w =
     (let r = toBlob env (the_canvas w) ''image/jpeg'' q
      in (r, w\<lparr>toBlobCalls := toBlobCalls w
                   @ [\<lparr>on_canvas = the_canvas w, at_quality = q, outcome = r\<rparr>]\<rparr>))"

text \<open>The locals of the first pass, lines 101 to 104.\<close>

record search =
  minQ :: number
  maxQ :: number
  bestBlob :: "Blob option"
  iterations :: nat

text \<open>
  The first loop, lines 107 to 118, as a function of its locals and the world. Reading
  \<^verbatim>\<open>blob.size\<close> of a \<^verbatim>\<open>null\<close> throws. The counter bounds the recursion.
\<close>

function firstPass ::
  "platform \<Rightarrow> number \<Rightarrow> search \<Rightarrow> world \<Rightarrow> (error + search) \<times> world" where
  "firstPass env targetSizeBytes s w =
     (if minQ s \<le> maxQ s \<and> iterations s < 10 then
        let midQ = (minQ s + maxQ s) / 2;
            (r, w') = getBlob env midQ w
        in case r of
             None \<Rightarrow> (Inl NullDereference, w')
           | Some b \<Rightarrow>
               if of_nat (size_of b) \<le> targetSizeBytes
               then firstPass env targetSizeBytes
                      (s\<lparr>bestBlob := Some b, minQ := midQ + 5 / 100,
                         iterations := iterations s + 1\<rparr>) w'
               else firstPass env targetSizeBytes
                      (s\<lparr>maxQ := midQ - 5 / 100, iterations := iterations s + 1\<rparr>) w'
      else (Inr s, w))"
  by pat_completeness auto
termination
  by (relation "measure (\<lambda>(env, t, s, w). 10 - iterations s)") auto

text \<open>
  The locals of the second pass: \<open>scale\<close>, the counter \<open>iterations\<close> after its reset
  (here \<open>rounds\<close>), and the variables \<open>width\<close> and \<open>height\<close> (here \<open>cur_width\<close>,
  \<open>cur_height\<close>).
\<close>

record resize =
  scale :: number
  rounds :: nat
  cur_width :: int
  cur_height :: int

text \<open>
  How the second loop is left: by the \<^verbatim>\<open>return\<close> of line 145, by the \<^verbatim>\<open>break\<close> of
  line 151, or because \<^verbatim>\<open>iterations < 15\<close> is false.
\<close>

datatype loop_exit =
    Returned CompressionResult
  | Broke resize
  | CapReached resize

definition redraw :: "HTMLImageElement \<Rightarrow> int \<Rightarrow> int \<Rightarrow> canvas \<Rightarrow> canvas" where
  "redraw originalImage wd ht c =
     painted (DrawImageAt originalImage 0 0 (of_int wd) (of_int ht))
       (painted (ClearRect 0 0 (of_int wd) (of_int ht))
          (set_height (of_int ht) (set_width (of_int wd) c)))"

function secondPass ::
  "platform \<Rightarrow> HTMLImageElement \<Rightarrow> number \<Rightarrow> resize \<Rightarrow> world \<Rightarrow> (error + loop_exit) \<times> world" where
  "secondPass env originalImage targetSizeBytes s w =
     (if rounds s < 15 then
        let wd = \<lfloor>fromUnsignedLong (img_width originalImage) * scale s\<rfloor>;
            ht = \<lfloor>fromUnsignedLong (img_height originalImage) * scale s\<rfloor>;
            s1 = s\<lparr>cur_width := wd, cur_height := ht\<rparr>;
            w1 = w\<lparr>the_canvas := redraw originalImage wd ht (the_canvas w)\<rparr>;
            (r, w2) = getBlob env (5 / 10) w1
        in case r of
             None \<Rightarrow> (Inl NullDereference, w2)
           | Some b \<Rightarrow>
               if of_nat (size_of b) \<le> targetSizeBytes
               then (Inr (Returned \<lparr>blob = Some b, width = wd, height = ht\<rparr>), w2)
               else
                 let s2 = s1\<lparr>scale := scale s1 - 1 / 10\<rparr>
                 in if scale s2 < 1 / 10 then (Inr (Broke s2), w2)
                    else secondPass env originalImage targetSizeBytes
                           (s2\<lparr>rounds := rounds s2 + 1\<rparr>) w2
      else (Inr (CapReached s), w))"
  by pat_completeness auto
termination
  by (relation "measure (\<lambda>(env, i, t, s, w). 15 - rounds s)") auto

text \<open>Lines 155 to 157: one more encode, returned whatever it is.\<close>

definition lastAttempt :: "platform \<Rightarrow> resize \<Rightarrow> world \<Rightarrow> (error + CompressionResult) \<times> world" where
  "lastAttempt env s w =
     (let (finalBlob, w') = getBlob env (1 / 10) w
      in (Inr \<lparr>blob = finalBlob, width = cur_width s, height = cur_height s\<rparr>, w'))"

text \<open>Lines 125 to 157: the second pass and what follows it.\<close>

definition dimensionFallback ::
  "platform \<Rightarrow> HTMLImageElement \<Rightarrow> number \<Rightarrow> int \<Rightarrow> int \<Rightarrow> world
     \<Rightarrow> (error + CompressionResult) \<times> world" where
  "dimensionFallback env originalImage targetSizeBytes wd ht w =
     (case secondPass env originalImage targetSizeBytes
             \<lparr>scale = 9 / 10, rounds = 0, cur_width = wd, cur_height = ht\<rparr> w of
        (Inl e, w') \<Rightarrow> (Inl e, w')
      | (Inr (Returned res), w') \<Rightarrow> (Inr res, w')
      | (Inr (Broke s), w') \<Rightarrow> lastAttempt env s w'
      | (Inr (CapReached s), w') \<Rightarrow> lastAttempt env s w')"

text \<open>Lines 84 to 86: the canvas at the original dimensions, with the image drawn on it.\<close>

definition originalCanvas :: "HTMLImageElement \<Rightarrow> canvas \<Rightarrow> canvas" where
  "originalCanvas originalImage c =
     (let wd = uint (img_width originalImage);
          ht = uint (img_height originalImage)
      in painted (DrawImageAt originalImage 0 0 (of_int wd) (of_int ht))
           (set_height (of_int ht) (set_width (of_int wd) c)))"

definition compressImageToTarget ::
  "platform \<Rightarrow> Blob \<Rightarrow> number \<Rightarrow> (error + CompressionResult) \<times> world" where
  "compressImageToTarget env file targetSizeKB =
     (let targetSizeBytes = targetSizeKB * 1024;
          w0 = \<lparr>the_canvas = createElement_canvas, toBlobCalls = []\<rparr>
      in case fileToImage env file of
           Inl e \<Rightarrow> (Inl e, w0)
         | Inr originalImage \<Rightarrow>
             if \<not> getContext env (the_canvas w0) then (Inl CouldNotGetCanvasContext, w0)
             else
               let wd = uint (img_width originalImage);
                   ht = uint (img_height originalImage);
                   w1 = w0\<lparr>the_canvas := originalCanvas originalImage (the_canvas w0)\<rparr>
               in (case firstPass env targetSizeBytes
                          \<lparr>minQ = 1 / 100, maxQ = 1, bestBlob = None, iterations = 0\<rparr> w1 of
                     (Inl e, w2) \<Rightarrow> (Inl e, w2)
                   | (Inr s, w2) \<Rightarrow>
                       (case bestBlob s of
                          Some b \<Rightarrow> (Inr \<lparr>blob = Some b, width = wd, height = ht\<rparr>, w2)
                        | None \<Rightarrow>
                            dimensionFallback env originalImage targetSizeBytes wd ht w2)))"

section \<open>Auxiliary notions for the statements\<close>

text \<open>The encode calls made between two worlds.\<close>

definition new_calls :: "world \<Rightarrow> world \<Rightarrow> encode_call list" where
  "new_calls w w' = drop (length (toBlobCalls w)) (toBlobCalls w')"

text \<open>
  The canvas of the second pass at a given scale (lines 131 to 138), and the encode
  call the second pass makes on it (line 141).
\<close>

definition scaledCanvas :: "HTMLImageElement \<Rightarrow> number \<Rightarrow> canvas" where
  "scaledCanvas img sc =
     redraw img \<lfloor>fromUnsignedLong (img_width img) * sc\<rfloor>
       \<lfloor>fromUnsignedLong (img_height img) * sc\<rfloor> createElement_canvas"

definition attempt :: "platform \<Rightarrow> HTMLImageElement \<Rightarrow> number \<Rightarrow> encode_call" where
  "attempt env img sc =
     \<lparr>on_canvas = scaledCanvas img sc, at_quality = 5 / 10,
      outcome = toBlob env (scaledCanvas img sc) ''image/jpeg'' (5 / 10)\<rparr>"

text \<open>
  An encode call fits the target when it produced a blob of at most that many bytes. In
  the first loop these are the calls whose blob is assigned to \<open>bestBlob\<close>: the
  candidates, in the order they were recorded.
\<close>

definition fits :: "number \<Rightarrow> encode_call \<Rightarrow> bool" where
  "fits t e = (case outcome e of None \<Rightarrow> False | Some b \<Rightarrow> of_nat (size_of b) \<le> t)"

definition candidates :: "number \<Rightarrow> encode_call list \<Rightarrow> encode_call list" where
  "candidates t calls = filter (fits t) calls"

section \<open>The quality search as specified\<close>

text \<open>
  The first phase in the words of the specification, over an encoder of the
  full-resolution image that always yields a blob. The quality interval starts at
  \<open>[0.01, 1]\<close>. For up to ten iterations, while \<open>minQ \<le> maxQ\<close>, the image is encoded
  at the midpoint; an encoding of at most \<open>targetBytes\<close> bytes becomes the candidate
  (replacing any earlier one) and moves \<open>minQ\<close> to \<open>midQ + 0.05\<close>, any other moves
  \<open>maxQ\<close> to \<open>midQ - 0.05\<close>. The result is the list of the qualities encoded at, in
  order, and the candidate, if any.
\<close>

definition tried :: "number \<Rightarrow> number list \<times> Blob option \<Rightarrow> number list \<times> Blob option" where
  "tried q r = (q # fst r, snd r)"

fun bisect ::
  "(number \<Rightarrow> Blob) \<Rightarrow> number \<Rightarrow> nat \<Rightarrow> number \<Rightarrow> number \<Rightarrow> Blob option
     \<Rightarrow> number list \<times> Blob option" where
  "bisect encode targetBytes 0 lo hi best = ([], best)"
| "bisect encode targetBytes (Suc n) lo hi best =
     (if lo \<le> hi then
        (let midQ = (lo + hi) / 2
         in if of_nat (size_of (encode midQ)) \<le> targetBytes
            then tried midQ (bisect encode targetBytes n (midQ + 5 / 100) hi (Some (encode midQ)))
            else tried midQ (bisect encode targetBytes n lo (midQ - 5 / 100) best))
      else ([], best))"

definition phase1 :: "(number \<Rightarrow> Blob) \<Rightarrow> number \<Rightarrow> number list \<times> Blob option" where
  "phase1 encode targetBytes = bisect encode targetBytes 10 (1 / 100) 1 None"

section \<open>Sample inputs\<close>

text \<open>
  An image of 1000 by 800 pixels shown at its natural size, a browser that loads it from
  any file and always gives a 2d context, and four encoders: one whose output has the
  same size at every quality, one whose output grows with the quality, one that yields
  \<^verbatim>\<open>null\<close> at quality 0.1 only, and one that always yields \<^verbatim>\<open>null\<close>.
\<close>

definition sample_image :: HTMLImageElement where
  "sample_image = \<lparr>naturalWidth = 1000, naturalHeight = 800, img_width = 1000, img_height = 800\<rparr>"

definition bytes :: "nat \<Rightarrow> Blob" where
  "bytes n = replicate n 0"

definition browser ::
  "HTMLImageElement \<Rightarrow> (canvas \<Rightarrow> string \<Rightarrow> number \<Rightarrow> Blob option) \<Rightarrow> platform" where
  "browser img enc = \<lparr>loadImage = (\<lambda>file. Some img), getContext = (\<lambda>c. True), toBlob = enc\<rparr>"

definition fixed_size :: "nat \<Rightarrow> canvas \<Rightarrow> string \<Rightarrow> number \<Rightarrow> Blob option" where
  "fixed_size n c ty q = Some (bytes n)"

definition grown :: "nat \<Rightarrow> number \<Rightarrow> Blob" where
  "grown n q = bytes (nat \<lfloor>q * of_nat n\<rfloor>)"

definition by_quality :: "nat \<Rightarrow> canvas \<Rightarrow> string \<Rightarrow> number \<Rightarrow> Blob option" where
  "by_quality n c ty q = Some (grown n q)"

definition null_at_tenth :: "canvas \<Rightarrow> string \<Rightarrow> number \<Rightarrow> Blob option" where
  "null_at_tenth c ty q = (if q = 1 / 10 then None else Some (bytes 2000))"

definition always_null :: "canvas \<Rightarrow> string \<Rightarrow> number \<Rightarrow> Blob option" where
  "always_null c ty q = None"

text \<open>
  An image of 1500 by 1200 pixels shown at 1000 by 800, a crop region inside it, and a
  region that is no region at all: negative width, no height, and outside the image.
\<close>

definition shrunk_image :: HTMLImageElement where
  "shrunk_image = \<lparr>naturalWidth = 1500, naturalHeight = 1200, img_width = 1000, img_height = 800\<rparr>"

definition inner_crop :: PixelCrop where
  "inner_crop = \<lparr>crop_x = 10, crop_y = 20, crop_width = 333, crop_height = 201\<rparr>"

definition broken_crop :: PixelCrop where
  "broken_crop = \<lparr>crop_x = - 50, crop_y = 900, crop_width = - 10, crop_height = 0\<rparr>"

text \<open>A photo of 4032 by 3024 pixels shown at 720 by 540, and a region inside it.\<close>

definition photo :: HTMLImageElement where
  "photo = \<lparr>naturalWidth = 4032, naturalHeight = 3024, img_width = 720, img_height = 540\<rparr>"

definition photo_crop :: PixelCrop where
  "photo_crop = \<lparr>crop_x = 100, crop_y = 50, crop_width = 360, crop_height = 270\<rparr>"

section \<open>The loops, step by step\<close>

declare firstPass.simps [simp del] secondPass.simps [simp del] bitlen.simps [simp del]

lemma getBlob_fst: "fst (getBlob env q w) = toBlob env (the_canvas w) ''image/jpeg'' q"
  by (simp add: getBlob_def Let_def)

lemma getBlob_calls:
  "toBlobCalls (snd (getBlob env q w)) = toBlobCalls w @
     [\<lparr>on_canvas = the_canvas w, at_quality = q,
       outcome = toBlob env (the_canvas w) ''image/jpeg'' q\<rparr>]"
  by (simp add: getBlob_def Let_def)

lemma getBlob_canvas: "the_canvas (snd (getBlob env q w)) = the_canvas w"
  by (simp add: getBlob_def Let_def)

subsection \<open>The first loop\<close>

lemma firstPass_stop:
  "\<not> (minQ s \<le> maxQ s \<and> iterations s < 10) \<Longrightarrow> firstPass env t s w = (Inr s, w)"
  by (subst firstPass.simps) auto

lemma firstPass_null:
  "minQ s \<le> maxQ s \<Longrightarrow> iterations s < 10 \<Longrightarrow>
   toBlob env (the_canvas w) ''image/jpeg'' ((minQ s + maxQ s) / 2) = None \<Longrightarrow>
   firstPass env t s w = (Inl NullDereference, snd (getBlob env ((minQ s + maxQ s) / 2) w))"
  by (subst firstPass.simps) (simp add: Let_def split_beta getBlob_fst)

lemma firstPass_fit:
  "minQ s \<le> maxQ s \<Longrightarrow> iterations s < 10 \<Longrightarrow>
   toBlob env (the_canvas w) ''image/jpeg'' ((minQ s + maxQ s) / 2) = Some b \<Longrightarrow>
   of_nat (size_of b) \<le> t \<Longrightarrow>
   firstPass env t s w =
     firstPass env t (s\<lparr>bestBlob := Some b, minQ := (minQ s + maxQ s) / 2 + 5 / 100,
                        iterations := iterations s + 1\<rparr>)
       (snd (getBlob env ((minQ s + maxQ s) / 2) w))"
  by (subst firstPass.simps) (simp add: Let_def split_beta getBlob_fst)

lemma firstPass_nofit:
  "minQ s \<le> maxQ s \<Longrightarrow> iterations s < 10 \<Longrightarrow>
   toBlob env (the_canvas w) ''image/jpeg'' ((minQ s + maxQ s) / 2) = Some b \<Longrightarrow>
   \<not> of_nat (size_of b) \<le> t \<Longrightarrow>
   firstPass env t s w =
     firstPass env t (s\<lparr>maxQ := (minQ s + maxQ s) / 2 - 5 / 100,
                        iterations := iterations s + 1\<rparr>)
       (snd (getBlob env ((minQ s + maxQ s) / 2) w))"
  by (subst firstPass.simps) (simp add: Let_def split_beta getBlob_fst)

lemma firstPass_induct [case_names stop null fit nofit]:
  assumes stop: "\<And>s w. \<not> (minQ s \<le> maxQ s \<and> iterations s < 10) \<Longrightarrow> P s w"
    and null: "\<And>s w. minQ s \<le> maxQ s \<Longrightarrow> iterations s < 10 \<Longrightarrow>
        toBlob env (the_canvas w) ''image/jpeg'' ((minQ s + maxQ s) / 2) = None \<Longrightarrow> P s w"
    and fit: "\<And>s w b. minQ s \<le> maxQ s \<Longrightarrow> iterations s < 10 \<Longrightarrow>
        toBlob env (the_canvas w) ''image/jpeg'' ((minQ s + maxQ s) / 2) = Some b \<Longrightarrow>
        of_nat (size_of b) \<le> t \<Longrightarrow>
        P (s\<lparr>bestBlob := Some b, minQ := (minQ s + maxQ s) / 2 + 5 / 100,
              iterations := iterations s + 1\<rparr>)
          (snd (getBlob env ((minQ s + maxQ s) / 2) w)) \<Longrightarrow> P s w"
    and nofit: "\<And>s w b. minQ s \<le> maxQ s \<Longrightarrow> iterations s < 10 \<Longrightarrow>
        toBlob env (the_canvas w) ''image/jpeg'' ((minQ s + maxQ s) / 2) = Some b \<Longrightarrow>
        \<not> of_nat (size_of b) \<le> t \<Longrightarrow>
        P (s\<lparr>maxQ := (minQ s + maxQ s) / 2 - 5 / 100, iterations := iterations s + 1\<rparr>)
          (snd (getBlob env ((minQ s + maxQ s) / 2) w)) \<Longrightarrow> P s w"
  shows "P s w"
proof (induction s arbitrary: w rule: measure_induct_rule [where f = "\<lambda>s. 10 - iterations s"])
  case (less s)
  let ?q = "(minQ s + maxQ s) / 2"
  show ?case
  proof (cases "minQ s \<le> maxQ s \<and> iterations s < 10")
    case False
    then show ?thesis by (rule stop)
  next
    case True
    then have lo: "minQ s \<le> maxQ s" and it: "iterations s < 10" by simp_all
    show ?thesis
    proof (cases "toBlob env (the_canvas w) ''image/jpeg'' ?q")
      case None
      with lo it show ?thesis by (rule null)
    next
      case (Some b)
      show ?thesis
      proof (cases "of_nat (size_of b) \<le> t")
        case yes: True
        show ?thesis
          by (rule fit [OF lo it Some yes], rule less.IH) (use it in simp)
      next
        case no: False
        show ?thesis
          by (rule nofit [OF lo it Some no], rule less.IH) (use it in simp)
      qed
    qed
  qed
qed

subsection \<open>The second loop and the last attempt\<close>

lemma redraw_any: "redraw img wd ht c = redraw img wd ht c'"
  by (simp add: redraw_def set_width_def set_height_def painted_def)

lemma redraw_scaled:
  "redraw img \<lfloor>fromUnsignedLong (img_width img) * sc\<rfloor>
       \<lfloor>fromUnsignedLong (img_height img) * sc\<rfloor> c = scaledCanvas img sc"
  unfolding scaledCanvas_def by (rule redraw_any)

lemma secondPass_cap:
  "\<not> rounds s < 15 \<Longrightarrow> secondPass env img t s w = (Inr (CapReached s), w)"
  by (subst secondPass.simps) simp

lemma secondPass_null:
  "rounds s < 15 \<Longrightarrow>
   toBlob env (scaledCanvas img (scale s)) ''image/jpeg'' (5 / 10) = None \<Longrightarrow>
   secondPass env img t s w =
     (Inl NullDereference,
      snd (getBlob env (5 / 10) (w\<lparr>the_canvas := scaledCanvas img (scale s)\<rparr>)))"
  by (subst secondPass.simps) (simp add: Let_def split_beta getBlob_fst redraw_scaled)

lemma secondPass_fit:
  "rounds s < 15 \<Longrightarrow>
   toBlob env (scaledCanvas img (scale s)) ''image/jpeg'' (5 / 10) = Some b \<Longrightarrow>
   of_nat (size_of b) \<le> t \<Longrightarrow>
   secondPass env img t s w =
     (Inr (Returned \<lparr>blob = Some b,
                     width = \<lfloor>fromUnsignedLong (img_width img) * scale s\<rfloor>,
                     height = \<lfloor>fromUnsignedLong (img_height img) * scale s\<rfloor>\<rparr>),
      snd (getBlob env (5 / 10) (w\<lparr>the_canvas := scaledCanvas img (scale s)\<rparr>)))"
  by (subst secondPass.simps) (simp add: Let_def split_beta getBlob_fst redraw_scaled)

lemma secondPass_break:
  "rounds s < 15 \<Longrightarrow>
   toBlob env (scaledCanvas img (scale s)) ''image/jpeg'' (5 / 10) = Some b \<Longrightarrow>
   \<not> of_nat (size_of b) \<le> t \<Longrightarrow> scale s - 1 / 10 < 1 / 10 \<Longrightarrow>
   secondPass env img t s w =
     (Inr (Broke (s\<lparr>cur_width := \<lfloor>fromUnsignedLong (img_width img) * scale s\<rfloor>,
                     cur_height := \<lfloor>fromUnsignedLong (img_height img) * scale s\<rfloor>,
                     scale := scale s - 1 / 10\<rparr>)),
      snd (getBlob env (5 / 10) (w\<lparr>the_canvas := scaledCanvas img (scale s)\<rparr>)))"
  by (subst secondPass.simps) (simp add: Let_def split_beta getBlob_fst redraw_scaled)

lemma secondPass_next:
  "rounds s < 15 \<Longrightarrow>
   toBlob env (scaledCanvas img (scale s)) ''image/jpeg'' (5 / 10) = Some b \<Longrightarrow>
   \<not> of_nat (size_of b) \<le> t \<Longrightarrow> \<not> scale s - 1 / 10 < 1 / 10 \<Longrightarrow>
   secondPass env img t s w =
     secondPass env img t
       (s\<lparr>cur_width := \<lfloor>fromUnsignedLong (img_width img) * scale s\<rfloor>,
          cur_height := \<lfloor>fromUnsignedLong (img_height img) * scale s\<rfloor>,
          scale := scale s - 1 / 10, rounds := rounds s + 1\<rparr>)
       (snd (getBlob env (5 / 10) (w\<lparr>the_canvas := scaledCanvas img (scale s)\<rparr>)))"
  by (subst secondPass.simps) (simp add: Let_def split_beta getBlob_fst redraw_scaled)

lemma secondPass_induct [case_names cap null fit brk cont]:
  assumes cap: "\<And>s w. \<not> rounds s < 15 \<Longrightarrow> P s w"
    and null: "\<And>s w. rounds s < 15 \<Longrightarrow>
        toBlob env (scaledCanvas img (scale s)) ''image/jpeg'' (5 / 10) = None \<Longrightarrow> P s w"
    and fit: "\<And>s w b. rounds s < 15 \<Longrightarrow>
        toBlob env (scaledCanvas img (scale s)) ''image/jpeg'' (5 / 10) = Some b \<Longrightarrow>
        of_nat (size_of b) \<le> t \<Longrightarrow> P s w"
    and brk: "\<And>s w b. rounds s < 15 \<Longrightarrow>
        toBlob env (scaledCanvas img (scale s)) ''image/jpeg'' (5 / 10) = Some b \<Longrightarrow>
        \<not> of_nat (size_of b) \<le> t \<Longrightarrow> scale s - 1 / 10 < 1 / 10 \<Longrightarrow> P s w"
    and cont: "\<And>s w b. rounds s < 15 \<Longrightarrow>
        toBlob env (scaledCanvas img (scale s)) ''image/jpeg'' (5 / 10) = Some b \<Longrightarrow>
        \<not> of_nat (size_of b) \<le> t \<Longrightarrow> \<not> scale s - 1 / 10 < 1 / 10 \<Longrightarrow>
        P (s\<lparr>cur_width := \<lfloor>fromUnsignedLong (img_width img) * scale s\<rfloor>,
             cur_height := \<lfloor>fromUnsignedLong (img_height img) * scale s\<rfloor>,
             scale := scale s - 1 / 10, rounds := rounds s + 1\<rparr>)
          (snd (getBlob env (5 / 10) (w\<lparr>the_canvas := scaledCanvas img (scale s)\<rparr>))) \<Longrightarrow>
        P s w"
  shows "P s w"
proof (induction s arbitrary: w rule: measure_induct_rule [where f = "\<lambda>s. 15 - rounds s"])
  case (less s)
  show ?case
  proof (cases "rounds s < 15")
    case False
    then show ?thesis by (rule cap)
  next
    case it: True
    show ?thesis
    proof (cases "toBlob env (scaledCanvas img (scale s)) ''image/jpeg'' (5 / 10)")
      case None
      with it show ?thesis by (rule null)
    next
      case (Some b)
      show ?thesis
      proof (cases "of_nat (size_of b) \<le> t")
        case True
        with it Some show ?thesis by (rule fit)
      next
        case no: False
        show ?thesis
        proof (cases "scale s - 1 / 10 < 1 / 10")
          case True
          with it Some no show ?thesis by (rule brk)
        next
          case False
          show ?thesis
            by (rule cont [OF it Some no False], rule less.IH) (use it in simp)
        qed
      qed
    qed
  qed
qed

lemma getBlob_attempt:
  "toBlobCalls (snd (getBlob env (1 / 2) (w\<lparr>the_canvas := scaledCanvas img sc\<rparr>)))
     = toBlobCalls w @ [attempt env img sc]"
  by (simp add: getBlob_calls attempt_def)

lemma lastAttempt_calls:
  "toBlobCalls (snd (lastAttempt env s w)) = toBlobCalls w @
     [\<lparr>on_canvas = the_canvas w, at_quality = 1 / 10,
       outcome = toBlob env (the_canvas w) ''image/jpeg'' (1 / 10)\<rparr>]"
  by (simp add: lastAttempt_def split_beta getBlob_calls)

lemma lastAttempt_eq:
  "fst (lastAttempt env s w) =
     Inr \<lparr>blob = toBlob env (the_canvas w) ''image/jpeg'' (1 / 10),
          width = cur_width s, height = cur_height s\<rparr>"
  by (simp add: lastAttempt_def split_beta getBlob_fst)

subsection \<open>The calls a loop adds\<close>

lemma new_calls_self: "new_calls w w = []"
  by (simp add: new_calls_def)

lemma new_calls_prefix:
  "prefix (toBlobCalls w) (toBlobCalls w') \<Longrightarrow>
   toBlobCalls w' = toBlobCalls w @ new_calls w w'"
  by (auto simp: new_calls_def prefix_def)

lemma new_calls_one:
  "toBlobCalls w' = toBlobCalls w @ [e] \<Longrightarrow> new_calls w w' = [e]"
  by (simp add: new_calls_def)

lemma new_calls_step:
  assumes "toBlobCalls w1 = toBlobCalls w @ [e]"
    and "prefix (toBlobCalls w1) (toBlobCalls w2)"
  shows "new_calls w w2 = e # new_calls w1 w2"
proof -
  from assms(2) obtain zs where "toBlobCalls w2 = toBlobCalls w1 @ zs"
    by (auto simp: prefix_def)
  with assms(1) show ?thesis by (simp add: new_calls_def)
qed

lemma firstPass_prefix: "prefix (toBlobCalls w) (toBlobCalls (snd (firstPass env t s w)))"
proof (induction s w rule: firstPass_induct [where env = env and t = t])
  case (stop s w)
  then show ?case by (simp add: firstPass_stop)
next
  case (null s w)
  then show ?case by (simp add: firstPass_null getBlob_calls)
next
  case (fit s w b)
  then show ?case by (auto simp: firstPass_fit getBlob_calls dest: append_prefixD)
next
  case (nofit s w b)
  then show ?case by (auto simp: firstPass_nofit getBlob_calls dest: append_prefixD)
qed

lemma secondPass_prefix:
  "prefix (toBlobCalls w) (toBlobCalls (snd (secondPass env img t s w)))"
proof (induction s w rule: secondPass_induct [where env = env and t = t and img = img])
  case (cap s w)
  then show ?case by (simp add: secondPass_cap)
next
  case (null s w)
  then show ?case by (simp add: secondPass_null getBlob_calls)
next
  case (fit s w b)
  then show ?case by (simp add: secondPass_fit getBlob_calls)
next
  case (brk s w b)
  then show ?case by (simp add: secondPass_break getBlob_calls)
next
  case (cont s w b)
  then show ?case by (auto simp: secondPass_next getBlob_calls dest: append_prefixD)
qed

text \<open>The new calls of the first loop, case by case.\<close>

lemma firstPass_new_stop:
  "\<not> (minQ s \<le> maxQ s \<and> iterations s < 10) \<Longrightarrow> new_calls w (snd (firstPass env t s w)) = []"
  by (simp add: firstPass_stop new_calls_self)

lemma firstPass_new_null:
  "minQ s \<le> maxQ s \<Longrightarrow> iterations s < 10 \<Longrightarrow>
   toBlob env (the_canvas w) ''image/jpeg'' ((minQ s + maxQ s) / 2) = None \<Longrightarrow>
   new_calls w (snd (firstPass env t s w)) =
     [\<lparr>on_canvas = the_canvas w, at_quality = (minQ s + maxQ s) / 2, outcome = None\<rparr>]"
  by (rule new_calls_one) (simp add: firstPass_null getBlob_calls)

lemma firstPass_new_fit:
  assumes "minQ s \<le> maxQ s" "iterations s < 10"
    and "toBlob env (the_canvas w) ''image/jpeg'' ((minQ s + maxQ s) / 2) = Some b"
    and "of_nat (size_of b) \<le> t"
  shows "new_calls w (snd (firstPass env t s w)) =
     \<lparr>on_canvas = the_canvas w, at_quality = (minQ s + maxQ s) / 2, outcome = Some b\<rparr>
     # new_calls (snd (getBlob env ((minQ s + maxQ s) / 2) w))
         (snd (firstPass env t
            (s\<lparr>bestBlob := Some b, minQ := (minQ s + maxQ s) / 2 + 5 / 100,
               iterations := iterations s + 1\<rparr>)
            (snd (getBlob env ((minQ s + maxQ s) / 2) w))))"
  unfolding firstPass_fit [OF assms]
  by (rule new_calls_step) (simp add: getBlob_calls assms(3), rule firstPass_prefix)

lemma firstPass_new_nofit:
  assumes "minQ s \<le> maxQ s" "iterations s < 10"
    and "toBlob env (the_canvas w) ''image/jpeg'' ((minQ s + maxQ s) / 2) = Some b"
    and "\<not> of_nat (size_of b) \<le> t"
  shows "new_calls w (snd (firstPass env t s w)) =
     \<lparr>on_canvas = the_canvas w, at_quality = (minQ s + maxQ s) / 2, outcome = Some b\<rparr>
     # new_calls (snd (getBlob env ((minQ s + maxQ s) / 2) w))
         (snd (firstPass env t
            (s\<lparr>maxQ := (minQ s + maxQ s) / 2 - 5 / 100, iterations := iterations s + 1\<rparr>)
            (snd (getBlob env ((minQ s + maxQ s) / 2) w))))"
  unfolding firstPass_nofit [OF assms]
  by (rule new_calls_step) (simp add: getBlob_calls assms(3), rule firstPass_prefix)

text \<open>The new calls of the second loop, case by case.\<close>

lemma secondPass_new_cap:
  "\<not> rounds s < 15 \<Longrightarrow> new_calls w (snd (secondPass env img t s w)) = []"
  by (simp add: secondPass_cap new_calls_self)

lemma secondPass_new_null:
  "rounds s < 15 \<Longrightarrow>
   toBlob env (scaledCanvas img (scale s)) ''image/jpeg'' (5 / 10) = None \<Longrightarrow>
   new_calls w (snd (secondPass env img t s w)) = [attempt env img (scale s)]"
  by (rule new_calls_one) (simp add: secondPass_null getBlob_attempt)

lemma secondPass_new_fit:
  "rounds s < 15 \<Longrightarrow>
   toBlob env (scaledCanvas img (scale s)) ''image/jpeg'' (5 / 10) = Some b \<Longrightarrow>
   of_nat (size_of b) \<le> t \<Longrightarrow>
   new_calls w (snd (secondPass env img t s w)) = [attempt env img (scale s)]"
  by (rule new_calls_one) (simp add: secondPass_fit getBlob_attempt)

lemma secondPass_new_break:
  "rounds s < 15 \<Longrightarrow>
   toBlob env (scaledCanvas img (scale s)) ''image/jpeg'' (5 / 10) = Some b \<Longrightarrow>
   \<not> of_nat (size_of b) \<le> t \<Longrightarrow> scale s - 1 / 10 < 1 / 10 \<Longrightarrow>
   new_calls w (snd (secondPass env img t s w)) = [attempt env img (scale s)]"
  by (rule new_calls_one) (simp add: secondPass_break getBlob_attempt)

lemma secondPass_new_next:
  assumes "rounds s < 15"
    and "toBlob env (scaledCanvas img (scale s)) ''image/jpeg'' (5 / 10) = Some b"
    and "\<not> of_nat (size_of b) \<le> t" and "\<not> scale s - 1 / 10 < 1 / 10"
  shows "new_calls w (snd (secondPass env img t s w)) =
     attempt env img (scale s)
     # new_calls (snd (getBlob env (5 / 10) (w\<lparr>the_canvas := scaledCanvas img (scale s)\<rparr>)))
         (snd (secondPass env img t
            (s\<lparr>cur_width := \<lfloor>fromUnsignedLong (img_width img) * scale s\<rfloor>,
               cur_height := \<lfloor>fromUnsignedLong (img_height img) * scale s\<rfloor>,
               scale := scale s - 1 / 10, rounds := rounds s + 1\<rparr>)
            (snd (getBlob env (5 / 10) (w\<lparr>the_canvas := scaledCanvas img (scale s)\<rparr>)))))"
  unfolding secondPass_next [OF assms]
  by (rule new_calls_step) (simp add: getBlob_attempt, rule secondPass_prefix)

lemma lastAttempt_new:
  "new_calls w (snd (lastAttempt env s w)) =
     [\<lparr>on_canvas = the_canvas w, at_quality = 1 / 10,
       outcome = toBlob env (the_canvas w) ''image/jpeg'' (1 / 10)\<rparr>]"
  by (rule new_calls_one) (simp add: lastAttempt_calls)

section \<open>Runs on the sample inputs\<close>

lemma size_of_bytes: "size_of (bytes n) = n"
  by (simp add: size_of_def bytes_def)

lemma size_of_grown: "size_of (grown n q) = nat \<lfloor>q * of_nat n\<rfloor>"
  by (simp add: grown_def size_of_bytes)


lemma floor_rat_numeral:
  "\<lfloor>(numeral a / numeral b :: rat)\<rfloor> = numeral a div numeral b"
  using floor_divide_of_int_eq [of "numeral a" "numeral b", where ?'a = rat] by simp

lemma bisect_numeral:
  "bisect encode t (numeral k) lo hi best =
     (if lo \<le> hi then
        (let midQ = (lo + hi) / 2
         in if of_nat (size_of (encode midQ)) \<le> t
            then tried midQ (bisect encode t (pred_numeral k) (midQ + 5 / 100) hi (Some (encode midQ)))
            else tried midQ (bisect encode t (pred_numeral k) lo (midQ - 5 / 100) best))
      else ([], best))"
  by (simp add: numeral_eq_Suc)

lemmas run_defs =
  compressImageToTarget_def fileToImage_def browser_def sample_image_def
  originalCanvas_def createElement_canvas_def set_width_def set_height_def painted_def
  reflected_def toUnsignedLong_def fromUnsignedLong_def getBlob_def redraw_def lastAttempt_def
  dimensionFallback_def size_of_bytes Let_def firstPass.simps secondPass.simps

text \<open>
  With 2000 bytes at every quality and a target of 1 KB nothing fits: four encodes in the
  first pass, nine in the second, and the last attempt.
\<close>

lemma too_large_run_qualities:
  "map at_quality
     (toBlobCalls (snd (compressImageToTarget (browser sample_image (fixed_size 2000)) [] 1)))
   = [101 / 200, 93 / 400, 77 / 800, 9 / 320,
      1 / 2, 1 / 2, 1 / 2, 1 / 2, 1 / 2, 1 / 2, 1 / 2, 1 / 2, 1 / 2, 1 / 10]"
  by (simp add: run_defs fixed_size_def)

lemma too_large_run_sizes:
  "map (\<lambda>e. (cv_width (on_canvas e), cv_height (on_canvas e)))
     (toBlobCalls (snd (compressImageToTarget (browser sample_image (fixed_size 2000)) [] 1)))
   = [(1000, 800), (1000, 800), (1000, 800), (1000, 800),
      (900, 720), (800, 640), (700, 560), (600, 480), (500, 400), (400, 320), (300, 240),
      (200, 160), (100, 80), (100, 80)]"
  by (simp add: run_defs fixed_size_def)

lemma too_large_second_pass:
  "map at_quality
     (new_calls \<lparr>the_canvas = createElement_canvas, toBlobCalls = []\<rparr>
        (snd (secondPass (browser sample_image (fixed_size 2000)) sample_image 1024
           \<lparr>scale = 9 / 10, rounds = 0, cur_width = 1000, cur_height = 800\<rparr>
           \<lparr>the_canvas = createElement_canvas, toBlobCalls = []\<rparr>)))
   = [1 / 2, 1 / 2, 1 / 2, 1 / 2, 1 / 2, 1 / 2, 1 / 2, 1 / 2, 1 / 2]"
  by (simp add: run_defs fixed_size_def new_calls_def)

text \<open>
  With \<open>\<lfloor>4096 q\<rfloor>\<close> bytes at quality \<open>q\<close> and a target of 2048 bytes, the first
  loop encodes at 0.505 (too large), then at 0.2325, 0.36875 and 0.436875, which all fit.
\<close>

lemma growing_run_state:
  "fst (firstPass (browser sample_image (by_quality 4096)) 2048
         \<lparr>minQ = 1 / 100, maxQ = 1, bestBlob = None, iterations = 0\<rparr>
         \<lparr>the_canvas = createElement_canvas, toBlobCalls = []\<rparr>)
   = Inr \<lparr>minQ = 779 / 1600, maxQ = 91 / 200, bestBlob = Some (bytes 1789), iterations = 4\<rparr>"
  by (simp add: run_defs by_quality_def grown_def floor_rat_numeral)

lemma growing_run_candidates:
  "map at_quality (candidates 2048
     (new_calls \<lparr>the_canvas = createElement_canvas, toBlobCalls = []\<rparr>
        (snd (firstPass (browser sample_image (by_quality 4096)) 2048
           \<lparr>minQ = 1 / 100, maxQ = 1, bestBlob = None, iterations = 0\<rparr>
           \<lparr>the_canvas = createElement_canvas, toBlobCalls = []\<rparr>))))
   = [93 / 400, 59 / 160, 699 / 1600]"
  by (simp add: run_defs by_quality_def grown_def floor_rat_numeral candidates_def fits_def new_calls_def)

lemma growing_phase1:
  "phase1 (grown 4096) 2048
     = ([101 / 200, 93 / 400, 59 / 160, 699 / 1600], Some (grown 4096 (699 / 1600)))"
  by (simp add: phase1_def bisect_numeral size_of_grown floor_rat_numeral tried_def Let_def)


section \<open>The number of encode calls\<close>

lemma firstPass_length:
  "length (toBlobCalls (snd (firstPass env t s w)))
     \<le> length (toBlobCalls w) + (10 - iterations s)"
proof (induction s w rule: firstPass_induct [where env = env and t = t])
  case (stop s w)
  then show ?case by (simp add: firstPass_stop)
next
  case (null s w)
  then show ?case by (simp add: firstPass_null getBlob_calls)
next
  case (fit s w b)
  then show ?case by (simp add: firstPass_fit getBlob_calls)
next
  case (nofit s w b)
  then show ?case by (simp add: firstPass_nofit getBlob_calls)
qed

lemma secondPass_length:
  "length (toBlobCalls (snd (secondPass env img t s w)))
     \<le> length (toBlobCalls w) + (15 - rounds s)"
proof (induction s w rule: secondPass_induct [where env = env and t = t and img = img])
  case (cap s w)
  then show ?case by (simp add: secondPass_cap)
next
  case (null s w)
  then show ?case by (simp add: secondPass_null getBlob_calls)
next
  case (fit s w b)
  then show ?case by (simp add: secondPass_fit getBlob_calls)
next
  case (brk s w b)
  then show ?case by (simp add: secondPass_break getBlob_calls)
next
  case (cont s w b)
  then show ?case by (simp add: secondPass_next getBlob_calls)
qed

lemma lastAttempt_length:
  "length (toBlobCalls (snd (lastAttempt env s w))) = length (toBlobCalls w) + 1"
  by (simp add: lastAttempt_calls)

lemma dimensionFallback_length:
  "length (toBlobCalls (snd (dimensionFallback env img t wd ht w)))
     \<le> length (toBlobCalls w) + 15 + 1"
proof -
  let ?s = "\<lparr>scale = 9 / 10, rounds = 0, cur_width = wd, cur_height = ht\<rparr>"
  obtain r w' where sp: "secondPass env img t ?s w = (r, w')"
    by (cases "secondPass env img t ?s w")
  from secondPass_length [of env img t ?s w] sp
  have len: "length (toBlobCalls w') \<le> length (toBlobCalls w) + 15" by simp
  show ?thesis
  proof (cases r)
    case (Inl e)
    with sp len show ?thesis by (simp add: dimensionFallback_def)
  next
    case (Inr x)
    with sp len show ?thesis
      by (cases x) (simp_all add: dimensionFallback_def lastAttempt_length)
  qed
qed

text \<open>
  C4. For every platform, file and target, the first pass makes at most 10 encode calls,
  the second pass at most 15, the last attempt exactly one, and a whole call of
  \<open>compressImageToTarget\<close> at most 26. The function is total: each loop is defined
  with a termination proof.
\<close>

theorem encode_calls_bounded:
  "length (new_calls w (snd (firstPass env t s w))) \<le> 10
   \<and> length (new_calls w (snd (secondPass env img t r w))) \<le> 15
   \<and> length (new_calls w (snd (lastAttempt env r w))) = 1
   \<and> length (toBlobCalls (snd (compressImageToTarget env file targetSizeKB))) \<le> 26"
proof (intro conjI)
  show "length (new_calls w (snd (firstPass env t s w))) \<le> 10"
    using firstPass_length [of env t s w] by (simp add: new_calls_def)
  show "length (new_calls w (snd (secondPass env img t r w))) \<le> 15"
    using secondPass_length [of env img t r w] by (simp add: new_calls_def)
  show "length (new_calls w (snd (lastAttempt env r w))) = 1"
    by (simp add: new_calls_def lastAttempt_calls)
  let ?t = "targetSizeKB * 1024"
  let ?w0 = "\<lparr>the_canvas = createElement_canvas, toBlobCalls = []\<rparr>"
  let ?s0 = "\<lparr>minQ = 1 / 100, maxQ = 1, bestBlob = None, iterations = 0\<rparr>"
  show "length (toBlobCalls (snd (compressImageToTarget env file targetSizeKB))) \<le> 26"
  proof (cases "fileToImage env file")
    case (Inl e)
    then show ?thesis by (simp add: compressImageToTarget_def)
  next
    case (Inr originalImage)
    let ?w1 = "?w0\<lparr>the_canvas := originalCanvas originalImage createElement_canvas\<rparr>"
    obtain r1 w2 where fp: "firstPass env ?t ?s0 ?w1 = (r1, w2)"
      by (cases "firstPass env ?t ?s0 ?w1")
    from firstPass_length [of env ?t ?s0 ?w1] fp
    have len: "length (toBlobCalls w2) \<le> 10" by simp
    have fb: "length (toBlobCalls (snd (dimensionFallback env originalImage ?t wd ht w2))) \<le> 26"
      for wd ht
      using dimensionFallback_length [of env originalImage ?t wd ht w2] len by simp
    show ?thesis
    proof (cases r1)
      case (Inl e)
      with Inr fp len show ?thesis by (simp add: compressImageToTarget_def Let_def)
    next
      case s: (Inr s1)
      with Inr fp len fb show ?thesis
        by (simp add: compressImageToTarget_def Let_def split: option.split)
    qed
  qed
qed

section \<open>The scales of the second pass\<close>

lemma attempt_list:
  "map (\<lambda>k. attempt env img ((9 - of_nat k) / 10)) [0..<9]
     = map (attempt env img) [9 / 10, 8 / 10, 7 / 10, 6 / 10, 5 / 10, 4 / 10, 3 / 10, 2 / 10, 1 / 10]"
proof -
  have "[0..<9] = [0, 1, 2, 3, 4, 5, 6, 7, 8::nat]"
    by (simp add: upt_rec)
  then show ?thesis by simp
qed

lemma secondPass_trace:
  "scale s = (9 - of_nat (rounds s)) / 10 \<Longrightarrow> rounds s \<le> 8 \<Longrightarrow>
   \<exists>n. rounds s + n \<le> 9
     \<and> toBlobCalls (snd (secondPass env img t s w))
         = toBlobCalls w
           @ map (\<lambda>k. attempt env img ((9 - of_nat k) / 10)) [rounds s ..< rounds s + n]
     \<and> (\<forall>s'. fst (secondPass env img t s w) \<noteq> Inr (CapReached s'))"
proof (induction s w rule: secondPass_induct [where env = env and t = t and img = img])
  case (cap s w)
  then show ?case by simp
next
  case (null s w)
  have "secondPass env img t s w = (Inl NullDereference,
      snd (getBlob env (5 / 10) (w\<lparr>the_canvas := scaledCanvas img (scale s)\<rparr>)))"
    using null.hyps by (rule secondPass_null)
  moreover have "[rounds s ..< rounds s + 1] = [rounds s]" by simp
  ultimately show ?case using null.prems
    by (intro exI [of _ 1]) (simp add: getBlob_attempt del: upt_Suc)
next
  case (fit s w b)
  have "secondPass env img t s w =
     (Inr (Returned \<lparr>blob = Some b,
                     width = \<lfloor>fromUnsignedLong (img_width img) * scale s\<rfloor>,
                     height = \<lfloor>fromUnsignedLong (img_height img) * scale s\<rfloor>\<rparr>),
      snd (getBlob env (5 / 10) (w\<lparr>the_canvas := scaledCanvas img (scale s)\<rparr>)))"
    using fit.hyps by (rule secondPass_fit)
  moreover have "[rounds s ..< rounds s + 1] = [rounds s]" by simp
  ultimately show ?case using fit.prems
    by (intro exI [of _ 1]) (simp add: getBlob_attempt del: upt_Suc)
next
  case (brk s w b)
  have "secondPass env img t s w =
     (Inr (Broke (s\<lparr>cur_width := \<lfloor>fromUnsignedLong (img_width img) * scale s\<rfloor>,
                     cur_height := \<lfloor>fromUnsignedLong (img_height img) * scale s\<rfloor>,
                     scale := scale s - 1 / 10\<rparr>)),
      snd (getBlob env (5 / 10) (w\<lparr>the_canvas := scaledCanvas img (scale s)\<rparr>)))"
    using brk.hyps by (rule secondPass_break)
  moreover have "[rounds s ..< rounds s + 1] = [rounds s]" by simp
  ultimately show ?case using brk.prems
    by (intro exI [of _ 1]) (simp add: getBlob_attempt del: upt_Suc)
next
  case (cont s w b)
  let ?s = "s\<lparr>cur_width := \<lfloor>fromUnsignedLong (img_width img) * scale s\<rfloor>,
             cur_height := \<lfloor>fromUnsignedLong (img_height img) * scale s\<rfloor>,
             scale := scale s - 1 / 10, rounds := rounds s + 1\<rparr>"
  let ?w = "snd (getBlob env (5 / 10) (w\<lparr>the_canvas := scaledCanvas img (scale s)\<rparr>))"
  from cont.prems cont.hyps(4) have r7: "rounds s \<le> 7"
    by (cases "rounds s = 8") simp_all
  have inv: "scale ?s = (9 - of_nat (rounds ?s)) / 10" using cont.prems(1) by (simp add: field_simps)
  have r8: "rounds ?s \<le> 8" using r7 by simp
  from cont.IH [OF inv r8] obtain n where
    n: "rounds ?s + n \<le> 9"
    and calls: "toBlobCalls (snd (secondPass env img t ?s ?w))
         = toBlobCalls ?w
           @ map (\<lambda>k. attempt env img ((9 - of_nat k) / 10)) [rounds ?s ..< rounds ?s + n]"
    and nocap: "\<forall>s'. fst (secondPass env img t ?s ?w) \<noteq> Inr (CapReached s')"
    by blast
  have step: "secondPass env img t s w = secondPass env img t ?s ?w"
    using cont.hyps by (rule secondPass_next)
  have here: "attempt env img (scale s) = attempt env img ((9 - of_nat (rounds s)) / 10)"
    by (simp only: cont.prems(1))
  have "[rounds s ..< rounds s + Suc n] = rounds s # [rounds ?s ..< rounds ?s + n]"
    by (simp add: upt_conv_Cons)
  with n calls nocap step here show ?case
    by (intro exI [of _ "Suc n"]) (simp add: getBlob_attempt del: upt_Suc)
qed

text \<open>
  C9. Started as the second pass is (scale 0.9, counter 0), the second loop encodes at
  most nine times, at the scales 0.9, 0.8, ..., 0.1 in this order and on nothing else,
  and it is never left because the counter reached 15: it ends by a \<^verbatim>\<open>return\<close>, by
  the \<^verbatim>\<open>break\<close>, or by the throw on a \<^verbatim>\<open>null\<close> blob.
\<close>

theorem secondPass_nine_scales:
  "prefix
     (new_calls w (snd (secondPass env img t
        \<lparr>scale = 9 / 10, rounds = 0, cur_width = wd, cur_height = ht\<rparr> w)))
     (map (attempt env img)
        [9 / 10, 8 / 10, 7 / 10, 6 / 10, 5 / 10, 4 / 10, 3 / 10, 2 / 10, 1 / 10])
   \<and> (\<forall>s. fst (secondPass env img t
        \<lparr>scale = 9 / 10, rounds = 0, cur_width = wd, cur_height = ht\<rparr> w) \<noteq> Inr (CapReached s))"
proof -
  let ?s = "\<lparr>scale = 9 / 10, rounds = 0, cur_width = wd, cur_height = ht\<rparr>"
  let ?f = "\<lambda>k. attempt env img ((9 - of_nat k) / 10)"
  have "scale ?s = (9 - of_nat (rounds ?s)) / 10" "rounds ?s \<le> 8" by simp_all
  from secondPass_trace [OF this, of env img t w] obtain n where
    n: "n \<le> 9"
    and calls: "toBlobCalls (snd (secondPass env img t ?s w)) = toBlobCalls w @ map ?f [0 ..< n]"
    and nocap: "\<forall>s'. fst (secondPass env img t ?s w) \<noteq> Inr (CapReached s')"
    by auto
  from n have "[0 ..< n] = take n [0 ..< 9]" by simp
  then have "map ?f [0 ..< n] = take n (map ?f [0 ..< 9])" by (simp only: take_map)
  then have "prefix (map ?f [0 ..< n]) (map ?f [0 ..< 9])" by (simp only: take_is_prefix)
  moreover have "new_calls w (snd (secondPass env img t ?s w)) = map ?f [0 ..< n]"
    by (simp add: new_calls_def calls)
  ultimately have "prefix (new_calls w (snd (secondPass env img t ?s w)))
     (map (attempt env img)
        [9 / 10, 8 / 10, 7 / 10, 6 / 10, 5 / 10, 4 / 10, 3 / 10, 2 / 10, 1 / 10])"
    by (simp only: attempt_list)
  with nocap show ?thesis by blast
qed

section \<open>The qualities passed to the encoder\<close>

lemma firstPass_new_qualities:
  "1 / 100 \<le> minQ s \<Longrightarrow> maxQ s \<le> 1 \<Longrightarrow>
   \<forall>e \<in> set (new_calls w (snd (firstPass env t s w))).
      1 / 100 \<le> at_quality e \<and> at_quality e \<le> 1"
proof (induction s w rule: firstPass_induct [where env = env and t = t])
  case (stop s w)
  then show ?case by (simp add: firstPass_new_stop)
next
  case (null s w)
  then show ?case by (simp add: firstPass_new_null)
next
  case (fit s w b)
  from fit.hyps(1) fit.prems have lo: "1 / 100 \<le> (minQ s + maxQ s) / 2" by (simp add: field_simps)
  from fit.hyps(1) fit.prems have hi: "(minQ s + maxQ s) / 2 \<le> 1" by (simp add: field_simps)
  note mid = lo hi
  from mid(1) have "1 / 100 \<le> (minQ s + maxQ s) / 2 + 5 / 100" by (simp add: field_simps)
  with fit.IH fit.prems(2) mid show ?case
    by (simp add: firstPass_new_fit [OF fit.hyps])
next
  case (nofit s w b)
  from nofit.hyps(1) nofit.prems have lo: "1 / 100 \<le> (minQ s + maxQ s) / 2" by (simp add: field_simps)
  from nofit.hyps(1) nofit.prems have hi: "(minQ s + maxQ s) / 2 \<le> 1" by (simp add: field_simps)
  note mid = lo hi
  from mid(2) have "(minQ s + maxQ s) / 2 - 5 / 100 \<le> 1" by (simp add: field_simps)
  with nofit.IH nofit.prems(1) mid show ?case
    by (simp add: firstPass_new_nofit [OF nofit.hyps])
qed

lemma secondPass_new_qualities:
  "\<forall>e \<in> set (new_calls w (snd (secondPass env img t s w))). at_quality e = 5 / 10"
proof (induction s w rule: secondPass_induct [where env = env and t = t and img = img])
  case (cap s w)
  then show ?case by (simp add: secondPass_new_cap)
next
  case (null s w)
  then show ?case by (simp add: secondPass_new_null attempt_def)
next
  case (fit s w b)
  then show ?case by (simp add: secondPass_new_fit attempt_def)
next
  case (brk s w b)
  then show ?case by (simp add: secondPass_new_break attempt_def)
next
  case (cont s w b)
  then show ?case by (simp add: secondPass_new_next [OF cont.hyps] attempt_def)
qed

text \<open>A property of all logged calls is kept by each part when its new calls have it.\<close>

lemma firstPass_keeps:
  assumes "\<forall>e \<in> set (toBlobCalls w). 1 / 100 \<le> at_quality e \<and> at_quality e \<le> 1"
    and "1 / 100 \<le> minQ s" "maxQ s \<le> 1"
  shows "\<forall>e \<in> set (toBlobCalls (snd (firstPass env t s w))).
           1 / 100 \<le> at_quality e \<and> at_quality e \<le> 1"
  using assms(1) firstPass_new_qualities [OF assms(2,3), of w env t]
  by (subst new_calls_prefix [OF firstPass_prefix]) (simp add: ball_Un)

lemma secondPass_keeps:
  assumes "\<forall>e \<in> set (toBlobCalls w). 1 / 100 \<le> at_quality e \<and> at_quality e \<le> 1"
  shows "\<forall>e \<in> set (toBlobCalls (snd (secondPass env img t s w))).
           1 / 100 \<le> at_quality e \<and> at_quality e \<le> 1"
proof -
  have "1 / 100 \<le> at_quality e \<and> at_quality e \<le> 1"
    if "e \<in> set (new_calls w (snd (secondPass env img t s w)))" for e
  proof -
    from that secondPass_new_qualities [of w env img t s] have "at_quality e = 5 / 10"
      by blast
    then show ?thesis by (simp only:) simp
  qed
  with assms show ?thesis
    by (subst new_calls_prefix [OF secondPass_prefix]) (simp add: ball_Un)
qed

lemma lastAttempt_keeps:
  assumes "\<forall>e \<in> set (toBlobCalls w). 1 / 100 \<le> at_quality e \<and> at_quality e \<le> 1"
  shows "\<forall>e \<in> set (toBlobCalls (snd (lastAttempt env s w))).
           1 / 100 \<le> at_quality e \<and> at_quality e \<le> 1"
  using assms by (simp add: lastAttempt_calls)

lemma dimensionFallback_keeps:
  assumes "\<forall>e \<in> set (toBlobCalls w). 1 / 100 \<le> at_quality e \<and> at_quality e \<le> 1"
  shows "\<forall>e \<in> set (toBlobCalls (snd (dimensionFallback env img t wd ht w))).
           1 / 100 \<le> at_quality e \<and> at_quality e \<le> 1"
proof -
  let ?s = "\<lparr>scale = 9 / 10, rounds = 0, cur_width = wd, cur_height = ht\<rparr>"
  obtain r w' where sp: "secondPass env img t ?s w = (r, w')"
    by (cases "secondPass env img t ?s w")
  from secondPass_keeps [OF assms, of env img t ?s] sp
  have w': "\<forall>e \<in> set (toBlobCalls w'). 1 / 100 \<le> at_quality e \<and> at_quality e \<le> 1" by simp
  show ?thesis
  proof (cases r)
    case (Inl e)
    with sp w' show ?thesis by (simp add: dimensionFallback_def)
  next
    case (Inr x)
    with sp w' lastAttempt_keeps [OF w'] show ?thesis
      by (cases x) (simp_all add: dimensionFallback_def)
  qed
qed

text \<open>
  C7. Every quality that a call of \<open>compressImageToTarget\<close> passes to the encoder lies
  between 0.01 and 1; the qualities of the second loop are all 0.5, and the last attempt
  encodes at 0.1.
\<close>

theorem qualities_in_range:
  "(\<forall>e \<in> set (toBlobCalls (snd (compressImageToTarget env file targetSizeKB))).
       1 / 100 \<le> at_quality e \<and> at_quality e \<le> 1)
   \<and> (\<forall>e \<in> set (new_calls w (snd (secondPass env img t r w))). at_quality e = 5 / 10)
   \<and> map at_quality (new_calls w (snd (lastAttempt env r w))) = [1 / 10]"
proof (intro conjI)
  show "\<forall>e \<in> set (new_calls w (snd (secondPass env img t r w))). at_quality e = 5 / 10"
    by (rule secondPass_new_qualities)
  show "map at_quality (new_calls w (snd (lastAttempt env r w))) = [1 / 10]"
    by (simp add: lastAttempt_new)
  let ?t = "targetSizeKB * 1024"
  let ?w0 = "\<lparr>the_canvas = createElement_canvas, toBlobCalls = []\<rparr>"
  let ?s0 = "\<lparr>minQ = 1 / 100, maxQ = 1, bestBlob = None, iterations = 0\<rparr>"
  show "\<forall>e \<in> set (toBlobCalls (snd (compressImageToTarget env file targetSizeKB))).
       1 / 100 \<le> at_quality e \<and> at_quality e \<le> 1"
  proof (cases "fileToImage env file")
    case (Inl e)
    then show ?thesis by (simp add: compressImageToTarget_def)
  next
    case (Inr originalImage)
    let ?w1 = "?w0\<lparr>the_canvas := originalCanvas originalImage createElement_canvas\<rparr>"
    obtain r1 w2 where fp: "firstPass env ?t ?s0 ?w1 = (r1, w2)"
      by (cases "firstPass env ?t ?s0 ?w1")
    have "\<forall>e \<in> set (toBlobCalls (snd (firstPass env ?t ?s0 ?w1))).
        1 / 100 \<le> at_quality e \<and> at_quality e \<le> 1"
      by (rule firstPass_keeps) simp_all
    with fp have w2: "\<forall>e \<in> set (toBlobCalls w2). 1 / 100 \<le> at_quality e \<and> at_quality e \<le> 1"
      by simp
    show ?thesis
    proof (cases r1)
      case (Inl e)
      with Inr fp w2 show ?thesis by (simp add: compressImageToTarget_def Let_def)
    next
      case s: (Inr s1)
      with Inr fp w2 dimensionFallback_keeps [OF w2] show ?thesis
        by (simp add: compressImageToTarget_def Let_def split: option.split)
    qed
  qed
qed

theorem qualities_in_range_witness:
  "toBlobCalls (snd (compressImageToTarget (browser sample_image (fixed_size 2000)) [] 1)) ! 3
     \<in> set (toBlobCalls (snd (compressImageToTarget (browser sample_image (fixed_size 2000)) [] 1)))
   \<and> at_quality
        (toBlobCalls (snd (compressImageToTarget (browser sample_image (fixed_size 2000)) [] 1)) ! 3)
       = 9 / 320
   \<and> 1 / 100 \<le> at_quality
        (toBlobCalls (snd (compressImageToTarget (browser sample_image (fixed_size 2000)) [] 1)) ! 3)
   \<and> at_quality
        (toBlobCalls (snd (compressImageToTarget (browser sample_image (fixed_size 2000)) [] 1)) ! 3)
       \<le> 1
   \<and> new_calls \<lparr>the_canvas = createElement_canvas, toBlobCalls = []\<rparr>
        (snd (secondPass (browser sample_image (fixed_size 2000)) sample_image 1024
           \<lparr>scale = 9 / 10, rounds = 0, cur_width = 1000, cur_height = 800\<rparr>
           \<lparr>the_canvas = createElement_canvas, toBlobCalls = []\<rparr>)) ! 8
     \<in> set (new_calls \<lparr>the_canvas = createElement_canvas, toBlobCalls = []\<rparr>
        (snd (secondPass (browser sample_image (fixed_size 2000)) sample_image 1024
           \<lparr>scale = 9 / 10, rounds = 0, cur_width = 1000, cur_height = 800\<rparr>
           \<lparr>the_canvas = createElement_canvas, toBlobCalls = []\<rparr>)))
   \<and> at_quality
       (new_calls \<lparr>the_canvas = createElement_canvas, toBlobCalls = []\<rparr>
        (snd (secondPass (browser sample_image (fixed_size 2000)) sample_image 1024
           \<lparr>scale = 9 / 10, rounds = 0, cur_width = 1000, cur_height = 800\<rparr>
           \<lparr>the_canvas = createElement_canvas, toBlobCalls = []\<rparr>)) ! 8) = 5 / 10"
proof -
  let ?env = "browser sample_image (fixed_size 2000)"
  let ?calls = "toBlobCalls (snd (compressImageToTarget ?env [] 1))"
  let ?w = "\<lparr>the_canvas = createElement_canvas, toBlobCalls = []\<rparr>"
  let ?r = "\<lparr>scale = 9 / 10, rounds = 0, cur_width = 1000, cur_height = 800\<rparr>"
  let ?new = "new_calls ?w (snd (secondPass ?env sample_image 1024 ?r ?w))"
  note inst = qualities_in_range [of ?env "[]" 1 ?w sample_image 1024 ?r]
  have "length (map at_quality ?calls) = 14"
    by (simp only: too_large_run_qualities) simp
  then have len: "length ?calls = 14" by simp
  then have mem: "?calls ! 3 \<in> set ?calls" by simp
  have "map at_quality ?calls ! 3 = 9 / 320"
    by (simp only: too_large_run_qualities) simp
  with len have q: "at_quality (?calls ! 3) = 9 / 320" by simp
  from inst mem
  have rng: "1 / 100 \<le> at_quality (?calls ! 3) \<and> at_quality (?calls ! 3) \<le> 1" by blast
  have "length (map at_quality ?new) = 9"
    by (simp only: too_large_second_pass) simp
  then have "length ?new = 9" by simp
  then have mem2: "?new ! 8 \<in> set ?new" by simp
  with inst have "at_quality (?new ! 8) = 5 / 10" by blast
  with mem q rng mem2 show ?thesis by blast
qed

section \<open>The candidates of the first loop\<close>

lemma firstPass_new_lower:
  "\<forall>e \<in> set (new_calls w (snd (firstPass env t s w))). minQ s \<le> at_quality e"
proof (induction s w rule: firstPass_induct [where env = env and t = t])
  case (stop s w)
  then show ?case by (simp add: firstPass_new_stop)
next
  case (null s w)
  then show ?case by (simp add: firstPass_new_null field_simps)
next
  case (fit s w b)
  from fit.hyps(1) have mid: "minQ s \<le> (minQ s + maxQ s) / 2" by (simp add: field_simps)
  have "minQ s \<le> at_quality e" if "(minQ s + maxQ s) / 2 + 5 / 100 \<le> at_quality e" for e
    using that fit.hyps(1) by (simp add: field_simps)
  with fit.IH mid show ?case
    by (auto simp: firstPass_new_fit [OF fit.hyps])
next
  case (nofit s w b)
  from nofit.hyps(1) have mid: "minQ s \<le> (minQ s + maxQ s) / 2" by (simp add: field_simps)
  with nofit.IH show ?case
    by (simp add: firstPass_new_nofit [OF nofit.hyps])
qed

lemma firstPass_candidates_sorted:
  "sorted_wrt (<) (map at_quality (candidates t (new_calls w (snd (firstPass env t s w)))))"
proof (induction s w rule: firstPass_induct [where env = env and t = t])
  case (stop s w)
  then show ?case by (simp add: firstPass_new_stop candidates_def)
next
  case (null s w)
  then show ?case by (simp add: firstPass_new_null candidates_def fits_def)
next
  case (fit s w b)
  let ?q = "(minQ s + maxQ s) / 2"
  let ?s = "s\<lparr>bestBlob := Some b, minQ := ?q + 5 / 100, iterations := iterations s + 1\<rparr>"
  let ?w = "snd (getBlob env ?q w)"
  have later: "?q < at_quality e" if "e \<in> set (new_calls ?w (snd (firstPass env t ?s ?w)))" for e
  proof -
    from that firstPass_new_lower [of ?w env t ?s] have "minQ ?s \<le> at_quality e" by blast
    then show ?thesis by (simp add: field_simps)
  qed
  from fit.IH later fit.hyps(4) show ?case
    by (simp add: firstPass_new_fit [OF fit.hyps] candidates_def fits_def)
next
  case (nofit s w b)
  from nofit.IH nofit.hyps(4) show ?case
    by (simp add: firstPass_new_nofit [OF nofit.hyps] candidates_def fits_def)
qed

lemma firstPass_best_is_last:
  "fst (firstPass env t s w) = Inr s' \<Longrightarrow>
   bestBlob s' =
     (if candidates t (new_calls w (snd (firstPass env t s w))) = [] then bestBlob s
      else outcome (last (candidates t (new_calls w (snd (firstPass env t s w))))))"
proof (induction s w rule: firstPass_induct [where env = env and t = t])
  case (stop s w)
  then show ?case by (auto simp: firstPass_stop new_calls_self candidates_def)
next
  case (null s w)
  then show ?case by (simp add: firstPass_null)
next
  case (fit s w b)
  from fit.prems have "fst (firstPass env t
      (s\<lparr>bestBlob := Some b, minQ := (minQ s + maxQ s) / 2 + 5 / 100,
         iterations := iterations s + 1\<rparr>)
      (snd (getBlob env ((minQ s + maxQ s) / 2) w))) = Inr s'"
    by (simp only: firstPass_fit [OF fit.hyps])
  from fit.IH [OF this] fit.hyps(4) show ?case
    by (simp add: firstPass_new_fit [OF fit.hyps] candidates_def fits_def)
next
  case (nofit s w b)
  from nofit.prems have "fst (firstPass env t
      (s\<lparr>maxQ := (minQ s + maxQ s) / 2 - 5 / 100, iterations := iterations s + 1\<rparr>)
      (snd (getBlob env ((minQ s + maxQ s) / 2) w))) = Inr s'"
    by (simp only: firstPass_nofit [OF nofit.hyps])
  from nofit.IH [OF this] nofit.hyps(4) show ?case
    by (simp add: firstPass_new_nofit [OF nofit.hyps] candidates_def fits_def)
qed

text \<open>
  C8. From any state of the first loop, the candidates are recorded at strictly increasing
  qualities: in the list of the fitting encodes, in the order they were made, every
  quality is strictly smaller than all later ones. When the loop ends normally,
  \<open>bestBlob\<close> holds the blob of the last candidate (or what it held before, when there
  was none).
\<close>

theorem candidates_increasing:
  "sorted_wrt (<) (map at_quality (candidates t (new_calls w (snd (firstPass env t s w)))))
   \<and> (\<forall>s'. fst (firstPass env t s w) = Inr s' \<longrightarrow>
        bestBlob s' =
          (if candidates t (new_calls w (snd (firstPass env t s w))) = [] then bestBlob s
           else outcome (last (candidates t (new_calls w (snd (firstPass env t s w)))))))"
  using firstPass_candidates_sorted firstPass_best_is_last by blast

theorem candidates_increasing_witness:
  "fst (firstPass (browser sample_image (by_quality 4096)) 2048
         \<lparr>minQ = 1 / 100, maxQ = 1, bestBlob = None, iterations = 0\<rparr>
         \<lparr>the_canvas = createElement_canvas, toBlobCalls = []\<rparr>)
     = Inr \<lparr>minQ = 779 / 1600, maxQ = 91 / 200, bestBlob = Some (bytes 1789), iterations = 4\<rparr>
   \<and> map at_quality (candidates 2048
       (new_calls \<lparr>the_canvas = createElement_canvas, toBlobCalls = []\<rparr>
          (snd (firstPass (browser sample_image (by_quality 4096)) 2048
             \<lparr>minQ = 1 / 100, maxQ = 1, bestBlob = None, iterations = 0\<rparr>
             \<lparr>the_canvas = createElement_canvas, toBlobCalls = []\<rparr>))))
     = [93 / 400, 59 / 160, 699 / 1600]
   \<and> outcome (last (candidates 2048
       (new_calls \<lparr>the_canvas = createElement_canvas, toBlobCalls = []\<rparr>
          (snd (firstPass (browser sample_image (by_quality 4096)) 2048
             \<lparr>minQ = 1 / 100, maxQ = 1, bestBlob = None, iterations = 0\<rparr>
             \<lparr>the_canvas = createElement_canvas, toBlobCalls = []\<rparr>)))))
     = Some (bytes 1789)"
proof -
  let ?env = "browser sample_image (by_quality 4096)"
  let ?s = "\<lparr>minQ = 1 / 100, maxQ = 1, bestBlob = None, iterations = 0\<rparr>"
  let ?w = "\<lparr>the_canvas = createElement_canvas, toBlobCalls = []\<rparr>"
  let ?cs = "candidates 2048 (new_calls ?w (snd (firstPass ?env 2048 ?s ?w)))"
  have "map at_quality ?cs \<noteq> []" by (simp only: growing_run_candidates) simp
  then have ne: "?cs \<noteq> []" by simp
  from candidates_increasing [of 2048 ?w ?env ?s] growing_run_state ne
  have "outcome (last ?cs) = Some (bytes 1789)" by simp
  with growing_run_state growing_run_candidates show ?thesis by blast
qed

section \<open>The first loop and the specified search\<close>

lemma firstPass_bisect:
  assumes total: "\<forall>q. toBlob env cv ''image/jpeg'' q = Some (encode q)"
  shows "the_canvas w = cv \<Longrightarrow>
    \<exists>s' w'. firstPass env t s w = (Inr s', w')
      \<and> bestBlob s' = snd (bisect encode t (10 - iterations s) (minQ s) (maxQ s) (bestBlob s))
      \<and> toBlobCalls w' = toBlobCalls w @
          map (\<lambda>q. \<lparr>on_canvas = cv, at_quality = q, outcome = Some (encode q)\<rparr>)
            (fst (bisect encode t (10 - iterations s) (minQ s) (maxQ s) (bestBlob s)))"
proof (induction s w rule: firstPass_induct [where env = env and t = t])
  case (stop s w)
  then show ?case
    by (cases "10 - iterations s") (auto simp: firstPass_stop)
next
  case (null s w)
  with total show ?case by simp
next
  case (fit s w b)
  let ?q = "(minQ s + maxQ s) / 2"
  from fit.hyps(3) fit.prems total have b: "encode ?q = b" by simp
  from fit.hyps(2) have fuel: "10 - iterations s = Suc (10 - (iterations s + 1))" by simp
  have cv: "the_canvas (snd (getBlob env ?q w)) = cv" using fit.prems by (simp add: getBlob_canvas)
  from fit.IH [OF cv] fit.hyps(1,3,4) fit.prems b show ?case
    by (simp only: firstPass_fit [OF fit.hyps] fuel) (auto simp: tried_def getBlob_calls Let_def)
next
  case (nofit s w b)
  let ?q = "(minQ s + maxQ s) / 2"
  from nofit.hyps(3) nofit.prems total have b: "encode ?q = b" by simp
  from nofit.hyps(2) have fuel: "10 - iterations s = Suc (10 - (iterations s + 1))" by simp
  have cv: "the_canvas (snd (getBlob env ?q w)) = cv" using nofit.prems by (simp add: getBlob_canvas)
  from nofit.IH [OF cv] nofit.hyps(1,3,4) nofit.prems b show ?case
    by (simp only: firstPass_nofit [OF nofit.hyps] fuel) (auto simp: tried_def getBlob_calls Let_def)
qed

text \<open>
  C2. When the image loads, a context is there and the encoder yields a blob at every
  quality on the full-resolution canvas, the first loop of \<open>compressImageToTarget\<close> is
  the search of the specification: it ends normally, it encodes the full-resolution
  canvas at exactly the qualities of \<open>phase1\<close>, in that order, and \<open>bestBlob\<close> ends as
  the candidate of \<open>phase1\<close>. If there is a candidate, the call returns it at the
  original dimensions with no further encode; otherwise it goes on to the second pass.
\<close>

theorem phase1_refines:
  assumes "loadImage env file = Some img"
    and "getContext env createElement_canvas"
    and "\<forall>q. toBlob env (originalCanvas img createElement_canvas) ''image/jpeg'' q
           = Some (encode q)"
  shows "\<exists>s w'.
      firstPass env (targetSizeKB * 1024)
        \<lparr>minQ = 1 / 100, maxQ = 1, bestBlob = None, iterations = 0\<rparr>
        \<lparr>the_canvas = originalCanvas img createElement_canvas, toBlobCalls = []\<rparr> = (Inr s, w')
      \<and> bestBlob s = snd (phase1 encode (targetSizeKB * 1024))
      \<and> toBlobCalls w' =
          map (\<lambda>q. \<lparr>on_canvas = originalCanvas img createElement_canvas, at_quality = q,
                     outcome = Some (encode q)\<rparr>)
            (fst (phase1 encode (targetSizeKB * 1024)))
      \<and> compressImageToTarget env file targetSizeKB =
          (case snd (phase1 encode (targetSizeKB * 1024)) of
             Some b \<Rightarrow>
               (Inr \<lparr>blob = Some b, width = uint (img_width img),
                     height = uint (img_height img)\<rparr>, w')
           | None \<Rightarrow>
               dimensionFallback env img (targetSizeKB * 1024)
                 (uint (img_width img)) (uint (img_height img)) w')"
proof -
  let ?t = "targetSizeKB * 1024"
  let ?s0 = "\<lparr>minQ = 1 / 100, maxQ = 1, bestBlob = None, iterations = 0\<rparr>"
  let ?w1 = "\<lparr>the_canvas = originalCanvas img createElement_canvas, toBlobCalls = []\<rparr>"
  have "the_canvas ?w1 = originalCanvas img createElement_canvas" by simp
  from firstPass_bisect [OF assms(3) this, of ?t ?s0] obtain s w' where
    run: "firstPass env ?t ?s0 ?w1 = (Inr s, w')"
    and best: "bestBlob s = snd (phase1 encode ?t)"
    and calls: "toBlobCalls w' =
          map (\<lambda>q. \<lparr>on_canvas = originalCanvas img createElement_canvas, at_quality = q,
                     outcome = Some (encode q)\<rparr>) (fst (phase1 encode ?t))"
    by (auto simp: phase1_def)
  from assms(1,2) run best have "compressImageToTarget env file targetSizeKB =
          (case snd (phase1 encode ?t) of
             Some b \<Rightarrow>
               (Inr \<lparr>blob = Some b, width = uint (img_width img),
                     height = uint (img_height img)\<rparr>, w')
           | None \<Rightarrow>
               dimensionFallback env img ?t (uint (img_width img)) (uint (img_height img)) w')"
    by (simp add: compressImageToTarget_def fileToImage_def Let_def)
  with run best calls show ?thesis by blast
qed

theorem phase1_refines_witness:
  "snd (phase1 (grown 4096) (2 * 1024)) = Some (bytes 1789)
   \<and> fst (compressImageToTarget (browser sample_image (by_quality 4096)) [] 2)
       = Inr \<lparr>blob = Some (bytes 1789), width = 1000, height = 800\<rparr>
   \<and> map at_quality
        (toBlobCalls (snd (compressImageToTarget (browser sample_image (by_quality 4096)) [] 2)))
       = [101 / 200, 93 / 400, 59 / 160, 699 / 1600]"
proof -
  let ?env = "browser sample_image (by_quality 4096)"
  have ld: "loadImage ?env [] = Some sample_image"
    and cx: "getContext ?env createElement_canvas"
    and en: "\<forall>q. toBlob ?env (originalCanvas sample_image createElement_canvas) ''image/jpeg'' q
           = Some (grown 4096 q)"
    by (simp_all add: browser_def by_quality_def)
  have g: "grown 4096 (699 / 1600) = bytes 1789"
    by (simp add: grown_def floor_rat_numeral)
  from phase1_refines [OF ld cx en, of 2] obtain s w' where
    calls: "toBlobCalls w' =
          map (\<lambda>q. \<lparr>on_canvas = originalCanvas sample_image createElement_canvas,
                     at_quality = q, outcome = Some (grown 4096 q)\<rparr>)
            (fst (phase1 (grown 4096) (2 * 1024)))"
    and res: "compressImageToTarget ?env [] 2 =
          (case snd (phase1 (grown 4096) (2 * 1024)) of
             Some b \<Rightarrow>
               (Inr \<lparr>blob = Some b, width = uint (img_width sample_image),
                     height = uint (img_height sample_image)\<rparr>, w')
           | None \<Rightarrow>
               dimensionFallback ?env sample_image (2 * 1024)
                 (uint (img_width sample_image)) (uint (img_height sample_image)) w')"
    by blast
  from res have "compressImageToTarget ?env [] 2
      = (Inr \<lparr>blob = Some (bytes 1789), width = 1000, height = 800\<rparr>, w')"
    by (simp add: growing_phase1 g sample_image_def)
  moreover from calls have "map at_quality (toBlobCalls w')
      = [101 / 200, 93 / 400, 59 / 160, 699 / 1600]"
    by (simp add: growing_phase1)
  ultimately show ?thesis by (simp add: growing_phase1 g)
qed

section \<open>A target that quality 1.0 meets\<close>






section \<open>A target that nothing meets\<close>

lemma firstPass_nothing_fits:
  assumes big: "\<forall>q. 1 / 100 \<le> q \<and> q \<le> 1 \<longrightarrow>
      (\<exists>b. toBlob env cv ''image/jpeg'' q = Some b \<and> t < of_nat (size_of b))"
  shows "the_canvas w = cv \<Longrightarrow> 1 / 100 \<le> minQ s \<Longrightarrow> maxQ s \<le> 1 \<Longrightarrow>
    \<exists>s' w'. firstPass env t s w = (Inr s', w') \<and> bestBlob s' = bestBlob s"
proof (induction s w rule: firstPass_induct [where env = env and t = t])
  case (stop s w)
  then show ?case by (simp add: firstPass_stop)
next
  case (null s w)
  from null.hyps(1) null.prems have "1 / 100 \<le> (minQ s + maxQ s) / 2 \<and> (minQ s + maxQ s) / 2 \<le> 1"
    by (simp add: field_simps)
  with big obtain b' where "toBlob env cv ''image/jpeg'' ((minQ s + maxQ s) / 2) = Some b'"
    by blast
  with null.hyps(3) null.prems(1) show ?case by simp
next
  case (fit s w b)
  from fit.hyps(1) fit.prems have "1 / 100 \<le> (minQ s + maxQ s) / 2 \<and> (minQ s + maxQ s) / 2 \<le> 1"
    by (simp add: field_simps)
  with big obtain b' where "toBlob env cv ''image/jpeg'' ((minQ s + maxQ s) / 2) = Some b'"
    and "t < of_nat (size_of b')"
    by blast
  with fit.hyps(3,4) fit.prems(1) show ?case by simp
next
  case (nofit s w b)
  let ?q = "(minQ s + maxQ s) / 2"
  from nofit.hyps(1) nofit.prems(3) have hi: "?q - 5 / 100 \<le> 1" by (simp add: field_simps)
  have cv: "the_canvas (snd (getBlob env ?q w)) = cv"
    using nofit.prems(1) by (simp add: getBlob_canvas)
  from nofit.IH [OF cv] nofit.prems(2) hi show ?case
    by (simp add: firstPass_nofit [OF nofit.hyps])
qed

lemma secondPass_nothing_fits:
  assumes big: "\<forall>k::nat. 1 \<le> k \<and> k \<le> 9 \<longrightarrow>
      (\<exists>b. toBlob env (scaledCanvas img (of_nat k / 10)) ''image/jpeg'' (5 / 10) = Some b
           \<and> t < of_nat (size_of b))"
  shows "scale s = (9 - of_nat (rounds s)) / 10 \<Longrightarrow> rounds s \<le> 8 \<Longrightarrow>
    \<exists>s' w'. secondPass env img t s w = (Inr (Broke s'), w')
      \<and> cur_width s' = \<lfloor>fromUnsignedLong (img_width img) * (1 / 10)\<rfloor>
      \<and> cur_height s' = \<lfloor>fromUnsignedLong (img_height img) * (1 / 10)\<rfloor>
      \<and> the_canvas w' = scaledCanvas img (1 / 10)"
proof (induction s w rule: secondPass_induct [where env = env and t = t and img = img])
  case (cap s w)
  then show ?case by simp
next
  case (null s w)
  from null.prems have "scale s = of_nat (9 - rounds s) / 10" "1 \<le> 9 - rounds s" "9 - rounds s \<le> 9"
    by (simp_all add: of_nat_diff)
  with big obtain b' where
    "toBlob env (scaledCanvas img (scale s)) ''image/jpeg'' (5 / 10) = Some b'"
    by (metis)
  with null.hyps(2) show ?case by simp
next
  case (fit s w b)
  from fit.prems have "scale s = of_nat (9 - rounds s) / 10" "1 \<le> 9 - rounds s" "9 - rounds s \<le> 9"
    by (simp_all add: of_nat_diff)
  with big obtain b' where
    "toBlob env (scaledCanvas img (scale s)) ''image/jpeg'' (5 / 10) = Some b'"
    and "t < of_nat (size_of b')"
    by (metis)
  with fit.hyps(2,3) show ?case by simp
next
  case (brk s w b)
  from brk.prems brk.hyps(4) have "rounds s = 8"
    by (cases "rounds s = 8") (simp_all add: field_simps)
  with brk.prems(1) have sc: "scale s = 1 / 10" by simp
  show ?case
    by (simp add: secondPass_break [OF brk.hyps] getBlob_canvas sc)
next
  case (cont s w b)
  let ?s = "s\<lparr>cur_width := \<lfloor>fromUnsignedLong (img_width img) * scale s\<rfloor>,
             cur_height := \<lfloor>fromUnsignedLong (img_height img) * scale s\<rfloor>,
             scale := scale s - 1 / 10, rounds := rounds s + 1\<rparr>"
  from cont.prems cont.hyps(4) have r7: "rounds s \<le> 7"
    by (cases "rounds s = 8") simp_all
  have inv: "scale ?s = (9 - of_nat (rounds ?s)) / 10" using cont.prems(1) by (simp add: field_simps)
  have r8: "rounds ?s \<le> 8" using r7 by simp
  from cont.IH [OF inv r8] show ?case
    by (simp only: secondPass_next [OF cont.hyps])
qed

text \<open>
  C1. Let the image load and a context be there, let every encoding of the
  full-resolution canvas at a quality between 0.01 and 1 be a blob larger than the
  target, and let every encoding at quality 0.5 of the canvas scaled by 0.9, 0.8, ..., 0.1
  be a blob larger than the target. Then \<open>compressImageToTarget\<close> raises no error: it
  returns what one last encode at quality 0.1 gives on the canvas of the last scale tried
  (0.1), whatever its size, with the dimensions of that canvas; that encode is the last
  call made.
\<close>

theorem budget_too_small:
  assumes "loadImage env file = Some img"
    and "getContext env createElement_canvas"
    and "\<forall>q. 1 / 100 \<le> q \<and> q \<le> 1 \<longrightarrow>
          (\<exists>b. toBlob env (originalCanvas img createElement_canvas) ''image/jpeg'' q = Some b
               \<and> targetSizeKB * 1024 < of_nat (size_of b))"
    and "\<forall>sc \<in> set [9 / 10, 8 / 10, 7 / 10, 6 / 10, 5 / 10, 4 / 10, 3 / 10, 2 / 10, 1 / 10].
          \<exists>b. toBlob env (scaledCanvas img sc) ''image/jpeg'' (5 / 10) = Some b
               \<and> targetSizeKB * 1024 < of_nat (size_of b)"
  shows "fst (compressImageToTarget env file targetSizeKB) =
           Inr \<lparr>blob = toBlob env (scaledCanvas img (1 / 10)) ''image/jpeg'' (1 / 10),
                width = \<lfloor>fromUnsignedLong (img_width img) * (1 / 10)\<rfloor>,
                height = \<lfloor>fromUnsignedLong (img_height img) * (1 / 10)\<rfloor>\<rparr>
         \<and> last (toBlobCalls (snd (compressImageToTarget env file targetSizeKB))) =
           \<lparr>on_canvas = scaledCanvas img (1 / 10), at_quality = 1 / 10,
            outcome = toBlob env (scaledCanvas img (1 / 10)) ''image/jpeg'' (1 / 10)\<rparr>"
proof -
  let ?t = "targetSizeKB * 1024"
  let ?s0 = "\<lparr>minQ = 1 / 100, maxQ = 1, bestBlob = None, iterations = 0\<rparr>"
  let ?w1 = "\<lparr>the_canvas = originalCanvas img createElement_canvas, toBlobCalls = []\<rparr>"
  let ?r0 = "\<lparr>scale = 9 / 10, rounds = 0, cur_width = uint (img_width img),
              cur_height = uint (img_height img)\<rparr>"
  have "the_canvas ?w1 = originalCanvas img createElement_canvas" "1 / 100 \<le> minQ ?s0" "maxQ ?s0 \<le> 1"
    by simp_all
  from firstPass_nothing_fits [OF assms(3) this] obtain s w2 where
    run1: "firstPass env ?t ?s0 ?w1 = (Inr s, w2)" and none: "bestBlob s = None"
    by auto
  have scales: "of_nat k / 10 \<in> set [9 / 10, 8 / 10, 7 / 10, 6 / 10, 5 / 10, 4 / 10, 3 / 10,
      2 / 10, 1 / 10 :: number]" if "1 \<le> k \<and> k \<le> 9" for k :: nat
  proof -
    from that have "k \<in> {1, 2, 3, 4, 5, 6, 7, 8, 9}" by auto
    then show ?thesis by auto
  qed
  with assms(4) have big: "\<forall>k::nat. 1 \<le> k \<and> k \<le> 9 \<longrightarrow>
      (\<exists>b. toBlob env (scaledCanvas img (of_nat k / 10)) ''image/jpeg'' (5 / 10) = Some b
           \<and> ?t < of_nat (size_of b))"
    by blast
  have "scale ?r0 = (9 - of_nat (rounds ?r0)) / 10" "rounds ?r0 \<le> 8" by simp_all
  from secondPass_nothing_fits [OF big this, of w2] obtain s' w3 where
    run2: "secondPass env img ?t ?r0 w2 = (Inr (Broke s'), w3)"
    and wd: "cur_width s' = \<lfloor>fromUnsignedLong (img_width img) * (1 / 10)\<rfloor>"
    and ht: "cur_height s' = \<lfloor>fromUnsignedLong (img_height img) * (1 / 10)\<rfloor>"
    and cv: "the_canvas w3 = scaledCanvas img (1 / 10)"
    by blast
  from assms(1,2) run1 none run2
  have "compressImageToTarget env file targetSizeKB = lastAttempt env s' w3"
    by (simp add: compressImageToTarget_def fileToImage_def dimensionFallback_def Let_def)
  with wd ht cv show ?thesis
    by (simp add: lastAttempt_eq lastAttempt_calls)
qed

theorem budget_too_small_witness:
  "fst (compressImageToTarget (browser sample_image (fixed_size 2000)) [] 1)
     = Inr \<lparr>blob = Some (bytes 2000), width = 100, height = 80\<rparr>
   \<and> (1::number) * 1024 < of_nat (size_of (bytes 2000))
   \<and> at_quality (last (toBlobCalls
         (snd (compressImageToTarget (browser sample_image (fixed_size 2000)) [] 1)))) = 1 / 10"
proof -
  let ?env = "browser sample_image (fixed_size 2000)"
  have ld: "loadImage ?env [] = Some sample_image"
    and cx: "getContext ?env createElement_canvas"
    by (simp_all add: browser_def)
  have p1: "\<forall>q. 1 / 100 \<le> q \<and> q \<le> 1 \<longrightarrow>
          (\<exists>b. toBlob ?env (originalCanvas sample_image createElement_canvas) ''image/jpeg'' q
                 = Some b \<and> (1::number) * 1024 < of_nat (size_of b))"
    by (simp add: browser_def fixed_size_def size_of_bytes)
  have p2: "\<forall>sc \<in> set [9 / 10, 8 / 10, 7 / 10, 6 / 10, 5 / 10, 4 / 10, 3 / 10, 2 / 10, 1 / 10].
          \<exists>b. toBlob ?env (scaledCanvas sample_image sc) ''image/jpeg'' (5 / 10) = Some b
               \<and> (1::number) * 1024 < of_nat (size_of b)"
    by (simp add: browser_def fixed_size_def size_of_bytes)
  have "toBlob ?env (scaledCanvas sample_image (1 / 10)) ''image/jpeg'' (1 / 10) = Some (bytes 2000)"
    by (simp add: browser_def fixed_size_def)
  moreover have "\<lfloor>fromUnsignedLong (img_width sample_image) * (1 / 10)\<rfloor> = 100"
    "\<lfloor>fromUnsignedLong (img_height sample_image) * (1 / 10)\<rfloor> = 80"
    by (simp_all add: sample_image_def fromUnsignedLong_def)
  ultimately show ?thesis
    using budget_too_small [OF ld cx p1 p2] by (simp add: size_of_bytes)
qed

section \<open>A null blob from the encoder\<close>

text \<open>
  C5. A \<^verbatim>\<open>null\<close> from the encoder does not always make the call fail. When every
  encode yields \<^verbatim>\<open>null\<close>, the first encode makes the call throw on \<^verbatim>\<open>blob.size\<close>,
  after a single encode call. But when only the final encode at quality 0.1 yields
  \<^verbatim>\<open>null\<close>, no error is raised at all: the call returns a result whose \<open>blob\<close> is
  \<^verbatim>\<open>null\<close>, at the dimensions of the last scale.
\<close>

theorem null_blob_returned:
  "fst (compressImageToTarget (browser sample_image always_null) [] 1) = Inl NullDereference
   \<and> length (toBlobCalls (snd (compressImageToTarget (browser sample_image always_null) [] 1))) = 1
   \<and> fst (compressImageToTarget (browser sample_image null_at_tenth) [] 1)
       = Inr \<lparr>blob = None, width = 100, height = 80\<rparr>"
  by (simp add: run_defs always_null_def null_at_tenth_def)

section \<open>The errors of getCroppedImg\<close>

lemmas crop_defs =
  getCroppedImg_def createElement_canvas_def set_width_def set_height_def painted_def Let_def

text \<open>
  C10. For every image, region and type, with nothing assumed about the region:
  \<open>getCroppedImg\<close> raises \<open>No2dContext\<close> exactly when no context is given for the
  sized canvas, and \<open>CanvasIsEmpty\<close> exactly when there is a context and the encoder
  yields \<^verbatim>\<open>null\<close>; it raises nothing else. With a context it paints once, encodes
  once at quality 1, and returns the blob it gets.
\<close>

theorem getCroppedImg_errors:
  "(fst (getCroppedImg env img crop ty) = Inl No2dContext
      \<longleftrightarrow> \<not> getContext env ((the_canvas (snd (getCroppedImg env img crop ty)))\<lparr>cv_ops := []\<rparr>))
   \<and> (fst (getCroppedImg env img crop ty) = Inl CanvasIsEmpty
      \<longleftrightarrow> getContext env ((the_canvas (snd (getCroppedImg env img crop ty)))\<lparr>cv_ops := []\<rparr>)
          \<and> toBlob env (the_canvas (snd (getCroppedImg env img crop ty)))
                (case ty of None \<Rightarrow> ''image/jpeg'' | Some t \<Rightarrow> t) 1 = None)
   \<and> (\<forall>e. fst (getCroppedImg env img crop ty) = Inl e \<longrightarrow> e = No2dContext \<or> e = CanvasIsEmpty)
   \<and> (getContext env ((the_canvas (snd (getCroppedImg env img crop ty)))\<lparr>cv_ops := []\<rparr>)
        \<longrightarrow> length (cv_ops (the_canvas (snd (getCroppedImg env img crop ty)))) = 1
          \<and> map at_quality (toBlobCalls (snd (getCroppedImg env img crop ty))) = [1]
          \<and> (\<forall>b. toBlob env (the_canvas (snd (getCroppedImg env img crop ty)))
                     (case ty of None \<Rightarrow> ''image/jpeg'' | Some t \<Rightarrow> t) 1 = Some b
                 \<longrightarrow> fst (getCroppedImg env img crop ty) = Inr b))"
  by (auto simp: crop_defs split: option.splits)

theorem getCroppedImg_errors_witness:
  "\<not> (0 < crop_width broken_crop) \<and> \<not> (0 < crop_height broken_crop) \<and> crop_x broken_crop < 0
   \<and> fromUnsignedLong (img_height sample_image) < crop_y broken_crop
   \<and> getContext (browser sample_image (fixed_size 2000))
        ((the_canvas (snd (getCroppedImg (browser sample_image (fixed_size 2000))
            sample_image broken_crop None)))\<lparr>cv_ops := []\<rparr>)
   \<and> fst (getCroppedImg (browser sample_image (fixed_size 2000)) sample_image broken_crop None)
       = Inr (bytes 2000)"
proof -
  let ?env = "browser sample_image (fixed_size 2000)"
  let ?r = "getCroppedImg ?env sample_image broken_crop None"
  have cx: "getContext ?env ((the_canvas (snd ?r))\<lparr>cv_ops := []\<rparr>)"
    by (simp add: browser_def)
  have enc: "toBlob ?env (the_canvas (snd ?r)) (case None of None \<Rightarrow> ''image/jpeg'' | Some t \<Rightarrow> t) 1
      = Some (bytes 2000)"
    by (simp add: browser_def fixed_size_def)
  from getCroppedImg_errors [of ?env sample_image broken_crop None] cx enc
  have "fst ?r = Inr (bytes 2000)" by blast
  with cx show ?thesis
    by (simp add: broken_crop_def sample_image_def fromUnsignedLong_def)
qed

section \<open>The dimensions of the cropped canvas\<close>

lemma pow2_pos: "0 < pow2 k"
  by (simp add: pow2_def)

lemma roundTiesToEven_nonneg: "0 \<le> m \<Longrightarrow> 0 \<le> roundTiesToEven m"
  by (simp add: roundTiesToEven_def Let_def)

lemma toDouble_nonneg: "0 \<le> x \<Longrightarrow> 0 \<le> toDouble x"
proof (cases "x = 0")
  case True
  then show ?thesis by (simp add: toDouble_def)
next
  case False
  assume "0 \<le> x"
  with False have x: "0 < x" by simp
  let ?q = "max (exponent \<bar>x\<bar> - 52) (- 1074)"
  have "0 \<le> \<bar>x\<bar> / pow2 ?q" using pow2_pos [of ?q] by simp
  then have "0 \<le> roundTiesToEven (\<bar>x\<bar> / pow2 ?q)" by (rule roundTiesToEven_nonneg)
  then have "0 \<le> (of_int (roundTiesToEven (\<bar>x\<bar> / pow2 ?q)) :: number) * pow2 ?q"
    using pow2_pos [of ?q] by simp
  with x False show ?thesis by (simp add: toDouble_def Let_def)
qed

lemma fdiv_nonneg: "0 \<le> a \<Longrightarrow> 0 \<le> b \<Longrightarrow> 0 \<le> fdiv a b"
  by (simp add: fdiv_def toDouble_nonneg)

lemma fmul_nonneg: "0 \<le> a \<Longrightarrow> 0 \<le> b \<Longrightarrow> 0 \<le> fmul a b"
  by (simp add: fmul_def toDouble_nonneg)

lemma fromUnsignedLong_nonneg: "0 \<le> fromUnsignedLong w"
proof -
  have "0 \<le> uint w" by simp
  then show ?thesis unfolding fromUnsignedLong_def by (simp only: of_int_0_le_iff)
qed

lemma reflected_floor:
  assumes "0 \<le> v" and "v \<le> 2147483647"
  shows "uint (reflected dflt v) = \<lfloor>v\<rfloor>"
proof -
  from assms(1) have lo: "0 \<le> \<lfloor>v\<rfloor>" by simp
  from assms(2) have "\<lfloor>v\<rfloor> \<le> \<lfloor>2147483647 :: number\<rfloor>" by (rule floor_mono)
  then have hi: "\<lfloor>v\<rfloor> \<le> 2147483647" by simp
  from lo hi have "uint (word_of_int \<lfloor>v\<rfloor> :: 32 word) = \<lfloor>v\<rfloor>"
    by (simp add: uint_word_of_int)
  with assms(1) hi show ?thesis
    by (simp add: reflected_def toUnsignedLong_def)
qed

lemma getCroppedImg_canvas:
  "cv_width (the_canvas (snd (getCroppedImg env img crop ty)))
     = reflected 300 (fmul (crop_width crop)
         (fdiv (fromUnsignedLong (naturalWidth img)) (fromUnsignedLong (img_width img))))"
  "cv_height (the_canvas (snd (getCroppedImg env img crop ty)))
     = reflected 150 (fmul (crop_height crop)
         (fdiv (fromUnsignedLong (naturalHeight img)) (fromUnsignedLong (img_height img))))"
  by (simp_all add: crop_defs split: option.splits)

lemma getCroppedImg_blob:
  "fst (getCroppedImg env img crop ty) = Inr b \<Longrightarrow>
   toBlob env (the_canvas (snd (getCroppedImg env img crop ty)))
     (case ty of None \<Rightarrow> ''image/jpeg'' | Some t \<Rightarrow> t) 1 = Some b"
  by (auto simp: crop_defs split: option.splits if_splits)

text \<open>
  C6, as the code has it. Take a region inside the displayed image, with positive width
  and height, and let the products \<open>region.width * scaleX\<close> and
  \<open>region.height * scaleY\<close>, as the code computes them in doubles, be at most
  2147483647. Then the canvas that \<open>getCroppedImg\<close> encodes has the integer parts of
  these two products as its width and height: the products are assigned to
  \<^verbatim>\<open>canvas.width\<close> and \<^verbatim>\<open>canvas.height\<close> as they are, and the assignment drops the
  fraction. A blob that is returned is the encoding of that canvas.
\<close>

theorem cropped_dimensions:
  assumes "0 \<le> crop_x crop" and "0 \<le> crop_y crop"
    and "crop_x crop + crop_width crop \<le> fromUnsignedLong (img_width img)"
    and "crop_y crop + crop_height crop \<le> fromUnsignedLong (img_height img)"
    and "0 < crop_width crop" and "0 < crop_height crop"
    and "fmul (crop_width crop)
           (fdiv (fromUnsignedLong (naturalWidth img)) (fromUnsignedLong (img_width img)))
         \<le> 2147483647"
    and "fmul (crop_height crop)
           (fdiv (fromUnsignedLong (naturalHeight img)) (fromUnsignedLong (img_height img)))
         \<le> 2147483647"
  shows "uint (cv_width (the_canvas (snd (getCroppedImg env img crop ty))))
           = \<lfloor>fmul (crop_width crop)
               (fdiv (fromUnsignedLong (naturalWidth img)) (fromUnsignedLong (img_width img)))\<rfloor>
         \<and> uint (cv_height (the_canvas (snd (getCroppedImg env img crop ty))))
           = \<lfloor>fmul (crop_height crop)
               (fdiv (fromUnsignedLong (naturalHeight img)) (fromUnsignedLong (img_height img)))\<rfloor>
         \<and> (\<forall>b. fst (getCroppedImg env img crop ty) = Inr b \<longrightarrow>
               toBlob env (the_canvas (snd (getCroppedImg env img crop ty)))
                 (case ty of None \<Rightarrow> ''image/jpeg'' | Some t \<Rightarrow> t) 1 = Some b)"
proof -
  let ?px = "fmul (crop_width crop)
      (fdiv (fromUnsignedLong (naturalWidth img)) (fromUnsignedLong (img_width img)))"
  let ?py = "fmul (crop_height crop)
      (fdiv (fromUnsignedLong (naturalHeight img)) (fromUnsignedLong (img_height img)))"
  from assms(5) have "0 \<le> crop_width crop" by simp
  then have x: "0 \<le> ?px"
    by (intro fmul_nonneg fdiv_nonneg fromUnsignedLong_nonneg)
  from assms(6) have "0 \<le> crop_height crop" by simp
  then have y: "0 \<le> ?py"
    by (intro fmul_nonneg fdiv_nonneg fromUnsignedLong_nonneg)
  from reflected_floor [OF x assms(7)] reflected_floor [OF y assms(8)] getCroppedImg_blob
  show ?thesis by (simp add: getCroppedImg_canvas)
qed

lemma floor_rat_of_int: "\<lfloor>(numeral a :: rat)\<rfloor> = numeral a"
  by simp

lemma bitlen_numeral:
  "bitlen (numeral k) = Suc (bitlen (numeral k div 2))"
  "bitlen 0 = 0" "bitlen (Suc 0) = Suc 0"
  by (simp_all add: bitlen.simps)

lemmas double_defs =
  fmul_def fdiv_def toDouble_def exponent_def roundTiesToEven_def pow2_def
  bitlen_numeral floor_rat_numeral

text \<open>
  A photo of 4032 by 3024 pixels shown at 720 by 540, and a region of 360 by 270 displayed
  pixels inside it. The scale 5.6 is no double; the width product comes out just below
  2016 and the canvas is 2015 pixels wide, while the height product rounds to 1512.
\<close>

lemma photo_products:
  "fmul (crop_width photo_crop)
     (fdiv (fromUnsignedLong (naturalWidth photo)) (fromUnsignedLong (img_width photo)))
     = 8866461766385663 / 4398046511104"
  "fmul (crop_height photo_crop)
     (fdiv (fromUnsignedLong (naturalHeight photo)) (fromUnsignedLong (img_height photo)))
     = 1512"
  by (simp_all add: photo_def photo_crop_def fromUnsignedLong_def double_defs Let_def)

theorem cropped_dimensions_witness:
  "uint (cv_width (the_canvas (snd (getCroppedImg (browser photo (fixed_size 2000))
        photo photo_crop None)))) = 2015
   \<and> uint (cv_height (the_canvas (snd (getCroppedImg (browser photo (fixed_size 2000))
        photo photo_crop None)))) = 1512"
proof -
  have "0 \<le> crop_x photo_crop" "0 \<le> crop_y photo_crop"
    "crop_x photo_crop + crop_width photo_crop \<le> fromUnsignedLong (img_width photo)"
    "crop_y photo_crop + crop_height photo_crop \<le> fromUnsignedLong (img_height photo)"
    "0 < crop_width photo_crop" "0 < crop_height photo_crop"
    "fmul (crop_width photo_crop)
       (fdiv (fromUnsignedLong (naturalWidth photo)) (fromUnsignedLong (img_width photo)))
     \<le> 2147483647"
    "fmul (crop_height photo_crop)
       (fdiv (fromUnsignedLong (naturalHeight photo)) (fromUnsignedLong (img_height photo)))
     \<le> 2147483647"
    by (simp_all only: photo_products)
      (simp_all add: photo_crop_def photo_def fromUnsignedLong_def)
  from cropped_dimensions [OF this, of "browser photo (fixed_size 2000)" None]
  show ?thesis
    by (simp add: photo_products floor_rat_numeral)
qed

text \<open>
  C6 with \<open>round\<close> fails. An image of 1500 by 1200 pixels shown at 1000 by 800 and a
  region 333 wide inside it: the scale 1.5 and the product 499.5 are doubles, a blob is
  returned, its canvas is 499 pixels wide, and the rounded product is 500, whether the
  product is taken exactly or in doubles.
\<close>

theorem cropped_dimensions_not_rounded:
  "0 \<le> crop_x inner_crop \<and> 0 \<le> crop_y inner_crop
   \<and> crop_x inner_crop + crop_width inner_crop \<le> fromUnsignedLong (img_width shrunk_image)
   \<and> crop_y inner_crop + crop_height inner_crop \<le> fromUnsignedLong (img_height shrunk_image)
   \<and> 0 < crop_width inner_crop \<and> 0 < crop_height inner_crop
   \<and> fst (getCroppedImg (browser shrunk_image (fixed_size 2000)) shrunk_image inner_crop None)
       = Inr (bytes 2000)
   \<and> uint (cv_width (the_canvas (snd (getCroppedImg (browser shrunk_image (fixed_size 2000))
        shrunk_image inner_crop None)))) = 499
   \<and> round (crop_width inner_crop
        * (fromUnsignedLong (naturalWidth shrunk_image) / fromUnsignedLong (img_width shrunk_image)))
       = 500
   \<and> round (fmul (crop_width inner_crop)
        (fdiv (fromUnsignedLong (naturalWidth shrunk_image))
           (fromUnsignedLong (img_width shrunk_image))))
       = 500"
  by (simp add: crop_defs reflected_def toUnsignedLong_def inner_crop_def shrunk_image_def
      fromUnsignedLong_def browser_def fixed_size_def double_defs round_def)

text \<open>
  Why the bound on the products: for an image 3000000000 pixels wide shown at 1000, the
  whole displayed width is a region inside the image, the product is 3000000000, and the
  canvas falls back to its default width.
\<close>

lemma wide_image_falls_back:
  "uint (cv_width (the_canvas (snd (getCroppedImg env
      \<lparr>naturalWidth = 3000000000, naturalHeight = 800, img_width = 1000, img_height = 800\<rparr>
      \<lparr>crop_x = 0, crop_y = 0, crop_width = 1000, crop_height = 800\<rparr> ty)))) = 300"
  by (simp add: getCroppedImg_canvas reflected_def toUnsignedLong_def fromUnsignedLong_def
      double_defs uint_word_of_int)

end
